theory Spec2Isabelle
  imports Complex_Main
begin

section \<open>Strings of the component\<close>

text \<open>
  The component is TypeScript: a string is a sequence of UTF-16 code units, and
  \<^verbatim>\<open>length\<close>, \<^verbatim>\<open>trim\<close>, \<^verbatim>\<open>includes\<close>, \<^verbatim>\<open>startsWith\<close>, \<^verbatim>\<open>split\<close> and the regular
  expressions of \<^verbatim>\<open>MPLookup.tsx\<close> all work on code units. A code unit is modelled by
  its number, so the em-dash of a constituency name is the one unit 8212.
  ASCII literals of the source are written with \<open>ustr\<close>.
\<close>

type_synonym jstring = "nat list"

definition ustr :: "string \<Rightarrow> jstring" where
  "ustr s = map of_char s"

text \<open>
  White space and line terminators of ECMAScript: what \<^verbatim>\<open>String.prototype.trim\<close>
  strips and what \<^verbatim>\<open>\s\<close> matches.
\<close>

definition isWhiteSpace :: "nat \<Rightarrow> bool" where
  "isWhiteSpace c \<longleftrightarrow>
     c = 9 \<or> c = 10 \<or> c = 11 \<or> c = 12 \<or> c = 13 \<or> c = 32 \<or> c = 160 \<or> c = 5760 \<or>
     (8192 \<le> c \<and> c \<le> 8202) \<or> c = 8232 \<or> c = 8233 \<or> c = 8239 \<or> c = 8287 \<or>
     c = 12288 \<or> c = 65279"

definition trim :: "jstring \<Rightarrow> jstring" where
  "trim s = rev (dropWhile isWhiteSpace (rev (dropWhile isWhiteSpace s)))"

definition startsWith :: "jstring \<Rightarrow> jstring \<Rightarrow> bool" where
  "startsWith s p \<longleftrightarrow> take (length p) s = p"

fun includes_str :: "jstring \<Rightarrow> jstring \<Rightarrow> bool" where
  "includes_str [] sub = (sub = [])"
| "includes_str (c # cs) sub = (startsWith (c # cs) sub \<or> includes_str cs sub)"

text \<open>\<^verbatim>\<open>/\d/\<close> and \<^verbatim>\<open>/[A-Za-z]/\<close> (the pattern has no \<^verbatim>\<open>i\<close> flag).\<close>

definition isDigit :: "nat \<Rightarrow> bool" where
  "isDigit c \<longleftrightarrow> 48 \<le> c \<and> c \<le> 57"

definition isAsciiLetter :: "nat \<Rightarrow> bool" where
  "isAsciiLetter c \<longleftrightarrow> (65 \<le> c \<and> c \<le> 90) \<or> (97 \<le> c \<and> c \<le> 122)"

text \<open>Decimal rendering of an integer-valued Number (\<^verbatim>\<open>toString\<close>, template literals).\<close>

fun digits :: "nat \<Rightarrow> jstring" where
  "digits n = (if n < 10 then [48 + n] else digits (n div 10) @ [48 + n mod 10])"

declare digits.simps [simp del]

definition toString :: "int \<Rightarrow> jstring" where
  "toString i = (if i < 0 then 45 # digits (nat (- i)) else digits (nat i))"

section \<open>Data model\<close>

text \<open>The interface \<^verbatim>\<open>MP\<close>; an optional field is \<open>None\<close> when absent.\<close>

record MP =
  firstName :: jstring
  lastName :: jstring
  fullName :: jstring
  constituency :: jstring
  province :: jstring
  party :: jstring
  email :: jstring
  isDefault :: "bool option"
  actualConstituency :: "jstring option"
  postalCode :: "jstring option"

text \<open>The \<^verbatim>\<open>useState\<close> cells that \<^verbatim>\<open>searchMP\<close> reads and writes.\<close>

record session =
  searchInput :: jstring
  mp :: "MP option"
  loading :: bool
  error :: jstring
  allMPs :: "MP list"
  suggestions :: "MP list"
  usedPostalCode :: bool

text \<open>
  The answer of the geocoding service to the one \<^verbatim>\<open>fetch\<close> of the postal-code path.
  A rejected promise or a throwing \<^verbatim>\<open>response.json()\<close> carries the thrown value: an
  \<^verbatim>\<open>Error\<close> with its message, or something that is not an \<^verbatim>\<open>Error\<close>.
\<close>

record boundary =
  boundary_set_name :: "jstring option"
  name :: jstring

record represent_data =
  boundaries_centroid :: "boundary list option"
  boundaries_concordance :: "boundary list option"

datatype thrown = ErrorObject jstring | NotAnError

datatype fetch_result =
    Rejected thrown
  | Response bool "thrown + represent_data"

text \<open>
  What a search sends to the network: the geocoding request (with the normalised code
  of its URL) and the tracking beacons of \<^verbatim>\<open>trackEvent\<close> (event type, MP name,
  constituency).
\<close>

datatype effect =
    FetchPostcode jstring
  | TrackEvent jstring jstring jstring

text \<open>Which part of \<^verbatim>\<open>searchMP\<close> ran.\<close>

datatype path = ValidationOnly | PostalCodePath | TextPath

section \<open>The resolver: \<^verbatim>\<open>searchMP\<close>\<close>

text \<open>
  \<^verbatim>\<open>/^[A-Za-z]\d[A-Za-z]\s?\d[A-Za-z]\d$/.test(query)\<close>: six characters, or seven with
  one white-space character after the third.
\<close>

fun postalCodePattern_test :: "jstring \<Rightarrow> bool" where
  "postalCodePattern_test [a, b, c, d, e, f] \<longleftrightarrow>
     isAsciiLetter a \<and> isDigit b \<and> isAsciiLetter c \<and> isDigit d \<and> isAsciiLetter e \<and> isDigit f"
| "postalCodePattern_test [a, b, c, w, d, e, f] \<longleftrightarrow>
     isAsciiLetter a \<and> isDigit b \<and> isAsciiLetter c \<and> isWhiteSpace w \<and>
     isDigit d \<and> isAsciiLetter e \<and> isDigit f"
| "postalCodePattern_test _ \<longleftrightarrow> False"

text \<open>\<^verbatim>\<open>query.toUpperCase().replace(/\s/g, '')\<close>; \<open>uc\<close> is the runtime's \<^verbatim>\<open>toUpperCase\<close>.\<close>

definition queryUpper_of :: "(jstring \<Rightarrow> jstring) \<Rightarrow> jstring \<Rightarrow> jstring" where
  "queryUpper_of uc query = filter (\<lambda>c. \<not> isWhiteSpace c) (uc query)"

text \<open>
  \<^verbatim>\<open>data.boundaries_centroid || data.boundaries_concordance || []\<close> (an array, even an
  empty one, is truthy) and the \<^verbatim>\<open>find\<close> of the first boundary whose set name is a
  non-empty string containing \<^verbatim>\<open>federal\<close> in lower case.
\<close>

definition boundaries_of :: "represent_data \<Rightarrow> boundary list" where
  "boundaries_of d =
     (case boundaries_centroid d of
        Some bs \<Rightarrow> bs
      | None \<Rightarrow> (case boundaries_concordance d of Some bs \<Rightarrow> bs | None \<Rightarrow> []))"

definition federalDistrict_of :: "(jstring \<Rightarrow> jstring) \<Rightarrow> represent_data \<Rightarrow> boundary option" where
  "federalDistrict_of lc d =
     find (\<lambda>b. case boundary_set_name b of
                 None \<Rightarrow> False
               | Some n \<Rightarrow> n \<noteq> [] \<and> includes_str (lc n) (ustr ''federal''))
          (boundaries_of d)"

text \<open>
  Lines 212-223: the exact match on the lower-cased constituency, then the match on the
  part of the district name before the first em-dash.  \<open>lc\<close> is the runtime's
  \<^verbatim>\<open>toLowerCase\<close>.
\<close>

definition constituencyFirstPart_of :: "(jstring \<Rightarrow> jstring) \<Rightarrow> jstring \<Rightarrow> jstring" where
  "constituencyFirstPart_of lc constituencyName =
     trim (lc (takeWhile (\<lambda>c. c \<noteq> 8212) constituencyName))"

definition foundMP_of :: "(jstring \<Rightarrow> jstring) \<Rightarrow> MP list \<Rightarrow> jstring \<Rightarrow> MP option" where
  "foundMP_of lc roster constituencyName =
     (case find (\<lambda>m. lc (constituency m) = lc constituencyName) roster of
        Some m \<Rightarrow> Some m
      | None \<Rightarrow>
          find (\<lambda>m. startsWith (lc (constituency m)) (constituencyFirstPart_of lc constituencyName))
               roster)"

definition vacantNote :: "jstring \<Rightarrow> jstring" where
  "vacantNote constituencyName =
     ustr ''Note: The constituency '' @ [34] @ constituencyName @ [34] @
     ustr '' seat is currently vacant or not in our database. Your email will be sent to Mark Carney (Prime Minister) with your constituency information.''"

definition noMatchMessage :: "jstring \<Rightarrow> jstring" where
  "noMatchMessage constituencyName =
     ustr ''Found constituency '' @ [34] @ constituencyName @ [34] @
     ustr '' but couldn'' @ [39] @ ustr ''t match with MP database. Try searching by name instead.''"

text \<open>
  Lines 225-245, on the state \<open>s\<close> reached so far: the match becomes the result, or the
  roster's first \<^verbatim>\<open>Mark Carney\<close> is copied with the three fallback fields, or the
  search ends with an error only.
\<close>

definition resolveDistrict ::
  "(jstring \<Rightarrow> jstring) \<Rightarrow> jstring \<Rightarrow> jstring \<Rightarrow> session \<Rightarrow> effect list \<times> session" where
  "resolveDistrict lc queryUpper constituencyName s =
     (case foundMP_of lc (allMPs s) constituencyName of
        Some foundMP \<Rightarrow>
          ([TrackEvent (ustr ''Search MP'') (fullName foundMP) (constituency foundMP)],
           s\<lparr>mp := Some foundMP\<rparr>)
      | None \<Rightarrow>
          (case find (\<lambda>m. fullName m = ustr ''Mark Carney'') (allMPs s) of
             Some markCarney \<Rightarrow>
               ([TrackEvent (ustr ''Search MP'') (fullName markCarney) constituencyName],
                s\<lparr>mp := Some (markCarney\<lparr>isDefault := Some True,
                                        actualConstituency := Some constituencyName,
                                        postalCode := Some queryUpper\<rparr>),
                  error := vacantNote constituencyName\<rparr>)
           | None \<Rightarrow> ([], s\<lparr>error := noMatchMessage constituencyName\<rparr>)))"

text \<open>The \<^verbatim>\<open>catch\<close> clause: the message of an \<^verbatim>\<open>Error\<close>, or the fixed text.\<close>

definition catchMessage :: "thrown \<Rightarrow> jstring" where
  "catchMessage t =
     (case t of
        ErrorObject m \<Rightarrow> m
      | NotAnError \<Rightarrow>
          ustr ''Error looking up postal code. Try searching by constituency name instead.'')"

text \<open>The \<^verbatim>\<open>try\<close> block of the postal-code path with its \<^verbatim>\<open>catch\<close> and \<^verbatim>\<open>finally\<close>.\<close>

definition postalCodeLookup ::
  "(jstring \<Rightarrow> jstring) \<Rightarrow> jstring \<Rightarrow> fetch_result \<Rightarrow> session \<Rightarrow> effect list \<times> session" where
  "postalCodeLookup lc queryUpper r s =
     (let (effs, s') =
        (case r of
           Rejected t \<Rightarrow> ([], s\<lparr>error := catchMessage t\<rparr>)
         | Response ok body \<Rightarrow>
             if \<not> ok then ([], s\<lparr>error := ustr ''Unable to find MP for this postal code''\<rparr>)
             else (case body of
                     Inl t \<Rightarrow> ([], s\<lparr>error := catchMessage t\<rparr>)
                   | Inr d \<Rightarrow>
                       (case federalDistrict_of lc d of
                          None \<Rightarrow>
                            ([], s\<lparr>error := ustr ''No federal constituency found for this postal code''\<rparr>)
                        | Some federalDistrict \<Rightarrow>
                            resolveDistrict lc queryUpper (name federalDistrict) s)))
      in (FetchPostcode queryUpper # effs, s'\<lparr>loading := False\<rparr>))"

text \<open>The body of the \<^verbatim>\<open>setTimeout\<close> callback of the text path (lines 254-274).\<close>

definition textMatches :: "(jstring \<Rightarrow> jstring) \<Rightarrow> jstring \<Rightarrow> MP \<Rightarrow> bool" where
  "textMatches lc queryLower m \<longleftrightarrow>
     includes_str (lc (fullName m)) queryLower \<or>
     includes_str (lc (constituency m)) queryLower \<or>
     includes_str (lc (province m)) queryLower \<or>
     includes_str (lc (lastName m)) queryLower \<or>
     includes_str (lc (firstName m)) queryLower"

definition foundMatchesMessage :: "nat \<Rightarrow> jstring" where
  "foundMatchesMessage n =
     ustr ''Found '' @ toString (int n) @ ustr '' matches. Please select one below:''"

definition textSearch ::
  "(jstring \<Rightarrow> jstring) \<Rightarrow> jstring \<Rightarrow> session \<Rightarrow> effect list \<times> session" where
  "textSearch lc query s =
     (let results = filter (textMatches lc (lc query)) (allMPs s);
          (effs, s') =
            (case results of
               [] \<Rightarrow>
                 ([], s\<lparr>error := ustr ''No MP found. Try searching by postal code, MP name, constituency, city, or province.''\<rparr>)
             | [m] \<Rightarrow>
                 ([TrackEvent (ustr ''Search MP'') (fullName m) (constituency m)],
                  s\<lparr>mp := Some m\<rparr>)
             | _ \<Rightarrow>
                 ([], s\<lparr>suggestions := take 10 results,
                        error := foundMatchesMessage (length results)\<rparr>))
      in (effs, s'\<lparr>loading := False\<rparr>))"

text \<open>
  \<^verbatim>\<open>searchMP\<close>, run to the end of its last callback.  \<open>lc\<close> and \<open>uc\<close> are the runtime's
  \<^verbatim>\<open>toLowerCase\<close> and \<^verbatim>\<open>toUpperCase\<close>, \<open>r\<close> is what the geocoding request would
  answer.  The result names the part of the function that ran, the requests sent in
  order, and the state after the last setter.
\<close>

definition searchMP ::
  "(jstring \<Rightarrow> jstring) \<Rightarrow> (jstring \<Rightarrow> jstring) \<Rightarrow> fetch_result \<Rightarrow> session
     \<Rightarrow> path \<times> effect list \<times> session" where
  "searchMP lc uc r s =
     (let query = trim (searchInput s) in
      if query = [] then
        (ValidationOnly, [],
         s\<lparr>error := ustr ''Please enter a postal code, MP name, constituency, or city''\<rparr>)
      else if length query < 2 then
        (ValidationOnly, [], s\<lparr>error := ustr ''Please enter at least 2 characters''\<rparr>)
      else
        (let s1 = s\<lparr>loading := True, error := [], mp := None, suggestions := [],
                    usedPostalCode := False\<rparr>;
             queryUpper = queryUpper_of uc query
         in if postalCodePattern_test query then
              (let (effs, s2) = postalCodeLookup lc queryUpper r (s1\<lparr>usedPostalCode := True\<rparr>)
               in (PostalCodePath, effs, s2))
            else
              (let (effs, s2) = textSearch lc query s1 in (TextPath, effs, s2))))"

section \<open>The composer: \<^verbatim>\<open>getEmailTemplate\<close> and \<^verbatim>\<open>createMailtoLink\<close>\<close>

text \<open>
  \<^verbatim>\<open>String.prototype.replace\<close> with a string pattern: only the first occurrence is
  replaced, and the replacement text is expanded by \<^verbatim>\<open>GetSubstitution\<close>, where
  \<^verbatim>\<open>$$\<close> is a dollar sign, \<^verbatim>\<open>$&\<close> the matched text, \<^verbatim>\<open>$`\<close> the text before the match
  and \<^verbatim>\<open>$'\<close> the text after it (a string pattern has no captures, so \<^verbatim>\<open>$1\<close> stays).
\<close>

fun getSubstitution :: "jstring \<Rightarrow> jstring \<Rightarrow> jstring \<Rightarrow> jstring \<Rightarrow> jstring" where
  "getSubstitution matched pre post [] = []"
| "getSubstitution matched pre post [c] = [c]"
| "getSubstitution matched pre post (c # d # cs) =
     (if c = 36 then
        (if d = 36 then 36 # getSubstitution matched pre post cs
         else if d = 38 then matched @ getSubstitution matched pre post cs
         else if d = 96 then pre @ getSubstitution matched pre post cs
         else if d = 39 then post @ getSubstitution matched pre post cs
         else 36 # getSubstitution matched pre post (d # cs))
      else c # getSubstitution matched pre post (d # cs))"

text \<open>The text before and after the first occurrence of \<open>pat\<close>, if there is one.\<close>

fun firstOccurrence :: "jstring \<Rightarrow> jstring \<Rightarrow> (jstring \<times> jstring) option" where
  "firstOccurrence pat [] = (if pat = [] then Some ([], []) else None)"
| "firstOccurrence pat (c # cs) =
     (if startsWith (c # cs) pat then Some ([], drop (length pat) (c # cs))
      else map_option (\<lambda>(pre, post). (c # pre, post)) (firstOccurrence pat cs))"

definition replace :: "jstring \<Rightarrow> jstring \<Rightarrow> jstring \<Rightarrow> jstring" where
  "replace s pat replacement =
     (case firstOccurrence pat s of
        None \<Rightarrow> s
      | Some (pre, post) \<Rightarrow>
          pre @ getSubstitution pat pre post replacement @ post)"

text \<open>
  Time values are milliseconds since the epoch.  \<open>localTZA t isUTC\<close> is the host's
  offset of local time from UTC (ECMAScript \<^verbatim>\<open>LocalTZA\<close>), at the UTC time \<open>t\<close> when
  \<open>isUTC\<close> and at the local time \<open>t\<close> otherwise.  \<^verbatim>\<open>setHours(0, 0, 0, 0)\<close> moves a time
  value to the midnight that starts its local day.
\<close>

definition msPerDay :: int where
  "msPerDay = 1000 * 60 * 60 * 24"

definition setHours0 :: "(int \<Rightarrow> bool \<Rightarrow> int) \<Rightarrow> int \<Rightarrow> int" where
  "setHours0 localTZA t =
     (let localTime = t + localTZA t True;
          date = (localTime div msPerDay) * msPerDay
      in date - localTZA date False)"

text \<open>
  \<^verbatim>\<open>new Date('2026-01-08')\<close>: a date-only ISO string is read as UTC midnight, day
  20461 of the epoch.
\<close>

definition startDate_parsed :: int where
  "startDate_parsed = 20461 * msPerDay"

text \<open>Lines 67-72, with \<open>now\<close> the time value of \<^verbatim>\<open>new Date()\<close>.\<close>

definition diffDays_of :: "(int \<Rightarrow> bool \<Rightarrow> int) \<Rightarrow> int \<Rightarrow> int" where
  "diffDays_of localTZA now =
     (let startDate = setHours0 localTZA startDate_parsed;
          today = setHours0 localTZA now;
          diffTime = today - startDate
      in diffTime div msPerDay)"

text \<open>
  The template fixture, each entry by its \<^verbatim>\<open>body\<close>, and the two languages of
  \<^verbatim>\<open>getEmailTemplate\<close>.
\<close>

record emailTemplates =
  regularTemplates :: "jstring list"
  primeMinisterTemplate :: jstring
  frenchTemplates :: "jstring list"

datatype language = En | Fr

datatype js_error = TypeError

text \<open>
  Numbers are IEEE 754 doubles, and the product of two of them is the real product
  rounded to the nearest double, ties to the even significand.  A finite double is an
  integer below \<open>2 ^ 53\<close> times a power of two with exponent from \<open>- 1074\<close> to \<open>971\<close>.
  For a real \<open>x\<close> from 0 to below \<open>2 ^ 1024\<close>, \<open>binade x 1023\<close> is the exponent of the
  largest power of two that is at most \<open>x\<close>, or \<open>- 1022\<close> where \<open>x\<close> is subnormal; the doubles
  around \<open>x\<close> are the multiples of the power of two 52 exponents below it.
\<close>

function binade :: "real \<Rightarrow> int \<Rightarrow> int" where
  "binade x e =
     (if e \<le> - 1022 then - 1022 else if 2 powi e \<le> x then e else binade x (e - 1))"
  by pat_completeness auto
termination
  by (relation "measure (\<lambda>(x, e). nat (e + 1022))") auto

declare binade.simps [simp del]

definition roundHalfEven :: "real \<Rightarrow> int" where
  "roundHalfEven q =
     (let f = \<lfloor>q\<rfloor>; d = q - of_int f
      in if d < 1 / 2 then f else if 1 / 2 < d then f + 1 else if even f then f else f + 1)"

definition roundDouble :: "real \<Rightarrow> real" where
  "roundDouble x =
     (let ulp = 2 powi (binade x 1023 - 52)
      in of_int (roundHalfEven (x / ulp)) * ulp)"

text \<open>
  \<^verbatim>\<open>list[Math.floor(Math.random() * list.length)].body\<close> with \<open>rnd\<close> the double that
  \<^verbatim>\<open>Math.random()\<close> returns; the length of an array is below \<open>2 ^ 32\<close> and so a double
  itself.  Reading \<^verbatim>\<open>body\<close> of a missing entry throws.
\<close>

definition randomBody :: "real \<Rightarrow> jstring list \<Rightarrow> js_error + jstring" where
  "randomBody rnd list =
     (let randomIndex = nat \<lfloor>roundDouble (rnd * real (length list))\<rfloor>
      in if randomIndex < length list then Inr (list ! randomIndex) else Inl TypeError)"

text \<open>Lines 74-89: the choice of the template.\<close>

definition chooseTemplate :: "real \<Rightarrow> emailTemplates \<Rightarrow> MP \<Rightarrow> language \<Rightarrow> js_error + jstring" where
  "chooseTemplate rnd et mpData lang =
     (if lang = Fr then randomBody rnd (frenchTemplates et)
      else if fullName mpData = ustr ''Mark Carney'' then Inr (primeMinisterTemplate et)
      else randomBody rnd (regularTemplates et))"

definition getEmailTemplate ::
  "(int \<Rightarrow> bool \<Rightarrow> int) \<Rightarrow> int \<Rightarrow> real \<Rightarrow> emailTemplates option \<Rightarrow> MP \<Rightarrow> language
     \<Rightarrow> js_error + jstring" where
  "getEmailTemplate localTZA now rnd templates mpData lang =
     (case templates of
        None \<Rightarrow> Inr []
      | Some et \<Rightarrow>
          (case chooseTemplate rnd et mpData lang of
             Inl e \<Rightarrow> Inl e
           | Inr template \<Rightarrow>
               Inr (replace template (ustr ''[DAYS_COUNT]'')
                      (toString (diffDays_of localTZA now)))))"

text \<open>The note of lines 303-305 for a fallback result.\<close>

definition constituencyNote :: "language \<Rightarrow> jstring \<Rightarrow> jstring option \<Rightarrow> jstring" where
  "constituencyNote lang actual code =
     (case lang of
        Fr \<Rightarrow>
          [10, 10] @ ustr ''Note: J'' @ [39, 233] @ ustr ''cris de la circonscription '' @ actual @
          (case code of
             None \<Rightarrow> []
           | Some pc \<Rightarrow> if pc = [] then [] else ustr '' (Code postal: '' @ pc @ ustr '')'') @
          ustr '', qui a actuellement un si'' @ [232] @
          ustr ''ge vacant. Je vous contacte en tant que Premier ministre pour m'' @ [39] @
          ustr ''assurer que cette question importante re'' @ [231] @ ustr ''oit l'' @ [39] @
          ustr ''attention n'' @ [233] @ ustr ''cessaire.''
      | En \<Rightarrow>
          [10, 10] @ ustr ''Note: I am writing from the '' @ actual @ ustr '' constituency'' @
          (case code of
             None \<Rightarrow> []
           | Some pc \<Rightarrow> if pc = [] then [] else ustr '' (Postal Code: '' @ pc @ ustr '')'') @
          ustr '', which currently has a vacant seat. I am reaching out to you as Prime Minister to ensure this important issue receives attention.'')"

text \<open>
  Lines 292-307 of \<^verbatim>\<open>createMailtoLink\<close>: the text of the email before it is
  percent-encoded into the \<^verbatim>\<open>mailto:\<close> link.
\<close>

definition emailBody ::
  "(int \<Rightarrow> bool \<Rightarrow> int) \<Rightarrow> int \<Rightarrow> real \<Rightarrow> emailTemplates option \<Rightarrow> MP \<Rightarrow> language
     \<Rightarrow> js_error + jstring" where
  "emailBody localTZA now rnd templates mpData lang =
     (case getEmailTemplate localTZA now rnd templates mpData lang of
        Inl e \<Rightarrow> Inl e
      | Inr template \<Rightarrow>
          (let body1 = replace template (ustr ''[MP_NAME]'') (fullName mpData);
               body2 = replace body1 (ustr ''[MP_NAME]'') (fullName mpData);
               locationInfo = constituency mpData @ ustr '', '' @ province mpData;
               body3 = replace body2 (ustr ''[CONSTITUENCY_INFO]'') locationInfo
           in Inr (case actualConstituency mpData of
                     Some actual \<Rightarrow>
                       if isDefault mpData = Some True \<and> actual \<noteq> []
                       then body3 @ constituencyNote lang actual (postalCode mpData)
                       else body3
                   | None \<Rightarrow> body3)))"

section \<open>The usage counter: \<^verbatim>\<open>fetchEmailCount\<close>\<close>

text \<open>\<^verbatim>\<open>split\<close> on a one-character separator; the empty string gives one empty piece.\<close>

fun split :: "nat \<Rightarrow> jstring \<Rightarrow> jstring list" where
  "split sep [] = [[]]"
| "split sep (c # cs) =
     (if c = sep then [] # split sep cs
      else (case split sep cs of
              [] \<Rightarrow> [[c]]
            | piece # pieces \<Rightarrow> (c # piece) # pieces))"

text \<open>
  \<^verbatim>\<open>eventType.replace(/^"(.*)"$/, '$1')\<close>: the dot matches no line terminator, so a
  string in double quotes with none inside loses its quotes and any other string stays.
\<close>

definition isLineTerminator :: "nat \<Rightarrow> bool" where
  "isLineTerminator c \<longleftrightarrow> c = 10 \<or> c = 13 \<or> c = 8232 \<or> c = 8233"

definition cleanEventType_of :: "jstring \<Rightarrow> jstring" where
  "cleanEventType_of eventType =
     (if 2 \<le> length eventType \<and> hd eventType = 34 \<and> last eventType = 34 \<and>
         list_all (\<lambda>c. \<not> isLineTerminator c) (butlast (tl eventType))
      then butlast (tl eventType) else eventType)"

text \<open>The body of the counting loop for one line, and the loop over the data lines.\<close>

definition countsAsSent :: "jstring \<Rightarrow> bool" where
  "countsAsSent line =
     (let columns = split 44 line
      in 1 < length columns \<and> cleanEventType_of (trim (columns ! 1)) = ustr ''Send email'')"

fun countLoop :: "jstring list \<Rightarrow> nat \<Rightarrow> nat" where
  "countLoop [] count = count"
| "countLoop (line # lines) count = countLoop lines (if countsAsSent line then count + 1 else count)"

text \<open>
  \<^verbatim>\<open>fetchEmailCount\<close>: the argument is what the \<^verbatim>\<open>fetch\<close> chain delivers, the text of
  the sheet or a rejection; the result is the value given to \<^verbatim>\<open>setEmailCount\<close>
  (\<open>None\<close> for \<^verbatim>\<open>null\<close>).
\<close>

definition fetchEmailCount :: "thrown + jstring \<Rightarrow> nat option" where
  "fetchEmailCount res =
     (case res of
        Inl err \<Rightarrow> None
      | Inr csvText \<Rightarrow>
          (let lines = split 10 (trim csvText)
           in if length lines \<le> 1 then Some 0 else Some (countLoop (tl lines) 0)))"

section \<open>Templates as prose with slots\<close>

text \<open>
  The fixture \<^verbatim>\<open>email-templates.json\<close> is not part of the sources, so a template is
  described by its shape: pieces of prose and the three placeholder tokens.
\<close>

datatype placeholder = MP_NAME | CONSTITUENCY_INFO | DAYS_COUNT

fun token :: "placeholder \<Rightarrow> jstring" where
  "token MP_NAME = ustr ''[MP_NAME]''"
| "token CONSTITUENCY_INFO = ustr ''[CONSTITUENCY_INFO]''"
| "token DAYS_COUNT = ustr ''[DAYS_COUNT]''"

datatype segment = Plain jstring | Slot placeholder

fun render :: "segment list \<Rightarrow> jstring" where
  "render [] = []"
| "render (Plain t # segs) = t @ render segs"
| "render (Slot p # segs) = token p @ render segs"

fun plainSegments :: "segment list \<Rightarrow> bool" where
  "plainSegments [] \<longleftrightarrow> True"
| "plainSegments (Plain t # segs) \<longleftrightarrow> 91 \<notin> set t \<and> plainSegments segs"
| "plainSegments (Slot p # segs) \<longleftrightarrow> plainSegments segs"

fun slotCount :: "placeholder \<Rightarrow> segment list \<Rightarrow> nat" where
  "slotCount p [] = 0"
| "slotCount p (Plain t # segs) = slotCount p segs"
| "slotCount p (Slot q # segs) = (if q = p then Suc (slotCount p segs) else slotCount p segs)"

fun fill :: "placeholder \<Rightarrow> jstring \<Rightarrow> segment list \<Rightarrow> segment list" where
  "fill p r [] = []"
| "fill p r (Plain t # segs) = Plain t # fill p r segs"
| "fill p r (Slot q # segs) = (if q = p then Plain r # segs else Slot q # fill p r segs)"

section \<open>Rows of the published sheet\<close>

text \<open>
  What the claim on the usage counter calls the second column of a row and a cell that
  reads \<^verbatim>\<open>Send email\<close>, with or without double quotes, white space around it ignored.
\<close>

definition secondColumn :: "jstring \<Rightarrow> jstring option" where
  "secondColumn row = (case split 44 row of c0 # c1 # rest \<Rightarrow> Some c1 | _ \<Rightarrow> None)"

definition isSendEmail :: "jstring \<Rightarrow> bool" where
  "isSendEmail cell \<longleftrightarrow>
     trim cell = ustr ''Send email'' \<or> trim cell = [34] @ ustr ''Send email'' @ [34]"

definition sendEmailRow :: "jstring \<Rightarrow> bool" where
  "sendEmailRow row = (case secondColumn row of Some cell \<Rightarrow> isSendEmail cell | None \<Rightarrow> False)"

section \<open>Sample data for concrete runs\<close>

text \<open>
  The case mappings of the runtime restricted to ASCII, a few roster records, the state
  of a freshly mounted component and an answer of the geocoding service.
\<close>

definition asciiLower :: "jstring \<Rightarrow> jstring" where
  "asciiLower s = map (\<lambda>c. if 65 \<le> c \<and> c \<le> 90 then c + 32 else c) s"

definition asciiUpper :: "jstring \<Rightarrow> jstring" where
  "asciiUpper s = map (\<lambda>c. if 97 \<le> c \<and> c \<le> 122 then c - 32 else c) s"

definition sampleMP :: "string \<Rightarrow> string \<Rightarrow> jstring \<Rightarrow> string \<Rightarrow> MP" where
  "sampleMP f l c p =
     \<lparr>firstName = ustr f, lastName = ustr l, fullName = ustr f @ [32] @ ustr l,
      constituency = c, province = ustr p, party = ustr ''Independent'',
      email = ustr f @ [46] @ ustr l @ ustr ''@parl.gc.ca'',
      isDefault = None, actualConstituency = None, postalCode = None\<rparr>"

definition janeDoe :: MP where
  "janeDoe = sampleMP ''Jane'' ''Doe'' (ustr ''Test'' @ [8212] @ ustr ''Riding'') ''Ontario''"

definition markCarney :: MP where
  "markCarney = sampleMP ''Mark'' ''Carney'' (ustr ''Nepean'') ''Ontario''"

definition newSession :: "jstring \<Rightarrow> MP list \<Rightarrow> session" where
  "newSession input roster =
     \<lparr>searchInput = input, mp = None, loading = False, error = [], allMPs = roster,
      suggestions = [], usedPostalCode = False\<rparr>"

definition johnRoe :: MP where
  "johnRoe = sampleMP ''John'' ''Roe'' (ustr ''Ottawa Centre'') ''Ontario''"

definition ontarioRoster :: "MP list" where
  "ontarioRoster =
     map (\<lambda>f. sampleMP f ''Roe'' (ustr ''Riding'') ''Ontario'')
       [''A'', ''B'', ''C'', ''D'', ''E'', ''F'', ''G'', ''H'', ''I'', ''J'', ''K'', ''L'']"

definition federalBoundary :: "jstring \<Rightarrow> boundary" where
  "federalBoundary district =
     \<lparr>boundary_set_name = Some (ustr ''Federal electoral district''), name = district\<rparr>"

definition federalData :: "jstring \<Rightarrow> represent_data" where
  "federalData district =
     \<lparr>boundaries_centroid = Some [federalBoundary district], boundaries_concordance = None\<rparr>"

text \<open>Folding one code unit to upper case, to compare strings up to ASCII letter case.\<close>

definition asciiFold :: "nat \<Rightarrow> nat" where
  "asciiFold c = (if 97 \<le> c \<and> c \<le> 122 then c - 32 else c)"

text \<open>
  A template set, the double nearest to 0.7, an MP record whose name is a replacement
  pattern, two time zones without daylight saving, two clock readings on 8 January 2026,
  and rows of a sheet.
\<close>

definition sampleTemplates :: emailTemplates where
  "sampleTemplates =
     \<lparr>regularTemplates =
        [ustr ''Dear [MP_NAME], for [DAYS_COUNT] days we have waited. [CONSTITUENCY_INFO]'',
         ustr ''Hello [MP_NAME], day [DAYS_COUNT]. [CONSTITUENCY_INFO]''],
      primeMinisterTemplate = ustr ''Prime Minister [MP_NAME], day [DAYS_COUNT]. [CONSTITUENCY_INFO]'',
      frenchTemplates = [ustr ''Bonjour [MP_NAME], jour [DAYS_COUNT]. [CONSTITUENCY_INFO]'']\<rparr>"

definition double_0_7 :: real where
  "double_0_7 = 6305039478318694 / 2 ^ 53"


definition easternStandardTime :: "int \<Rightarrow> bool \<Rightarrow> int" where
  "easternStandardTime t isUTC = - (5 * 3600000)"


definition noonEST_8_January :: int where
  "noonEST_8_January = startDate_parsed + 17 * 3600000"


definition sampleHeader :: jstring where
  "sampleHeader = ustr ''Timestamp,Event Type,Time,MP,Constituency''"

definition sampleSendRow :: jstring where
  "sampleSendRow = ustr ''1/8/2026 10:30:00,'' @ [34] @ ustr ''Send email'' @ [34] @ ustr '',x,Jane Doe,Riding''"

definition sampleSearchRow :: jstring where
  "sampleSearchRow = ustr ''1/8/2026 10:29:00,Search MP,x,Jane Doe,Riding''"

section \<open>Basic facts\<close>

lemmas sample_defs = newSession_def sampleMP_def janeDoe_def markCarney_def johnRoe_def
  ontarioRoster_def federalData_def federalBoundary_def asciiLower_def asciiUpper_def

lemmas string_defs = ustr_def trim_def isWhiteSpace_def startsWith_def isDigit_def
  isAsciiLetter_def

lemma ustr_Cons: "ustr (c # cs) = of_char c # ustr cs"
  by (simp add: ustr_def)

lemma ustr_nonempty: "ustr (c # cs) @ x \<noteq> []"
  by (simp add: ustr_def)

lemma pattern_length: "postalCodePattern_test q \<Longrightarrow> 6 \<le> length q"
  by (induction q rule: postalCodePattern_test.induct) simp_all

lemma vacantNote_nonempty: "vacantNote d \<noteq> []"
  by (simp add: vacantNote_def ustr_def)

lemma noMatchMessage_nonempty: "noMatchMessage d \<noteq> []"
  by (simp add: noMatchMessage_def ustr_def)

lemma foundMatchesMessage_nonempty: "foundMatchesMessage n \<noteq> []"
  by (simp add: foundMatchesMessage_def ustr_def)

lemma find_Some_first: "find P xs = Some x \<Longrightarrow> x \<in> set xs \<and> P x"
  by (induction xs) (auto split: if_splits)

lemma find_exists: "\<exists>x\<in>set xs. P x \<Longrightarrow> \<exists>y. find P xs = Some y"
  by (induction xs) auto

lemma find_None_all: "find P xs = None \<longleftrightarrow> (\<forall>x\<in>set xs. \<not> P x)"
  by (induction xs) auto

lemma trim_core:
  assumes "s \<noteq> []" "\<not> isWhiteSpace (hd s)" "\<not> isWhiteSpace (last s)" "list_all isWhiteSpace w"
  shows "trim (s @ w) = s"
proof -
  from assms(1,2) have "dropWhile isWhiteSpace (s @ w) = s @ w"
    by (cases s) simp_all
  moreover from assms(4) have "dropWhile isWhiteSpace (rev w @ rev s) = dropWhile isWhiteSpace (rev s)"
    by (simp add: dropWhile_append list_all_iff)
  moreover from assms(1,3) have "dropWhile isWhiteSpace (rev s) = rev s"
    by (cases s rule: rev_cases) simp_all
  ultimately show ?thesis
    by (simp add: trim_def)
qed

lemma searchMP_text:
  assumes "2 \<le> length (trim (searchInput s))" "\<not> postalCodePattern_test (trim (searchInput s))"
  shows "searchMP lc uc r s =
    (TextPath, textSearch lc (trim (searchInput s))
        (s\<lparr>loading := True, error := [], mp := None, suggestions := [], usedPostalCode := False\<rparr>))"
proof -
  from assms(1) have "trim (searchInput s) \<noteq> []" "\<not> length (trim (searchInput s)) < 2"
    by auto
  with assms(2) show ?thesis
    by (simp add: searchMP_def Let_def split_beta)
qed

lemma searchMP_postal:
  assumes "postalCodePattern_test (trim (searchInput s))"
  shows "searchMP lc uc r s =
    (PostalCodePath, postalCodeLookup lc (queryUpper_of uc (trim (searchInput s))) r
        (s\<lparr>loading := True, error := [], mp := None, suggestions := [], usedPostalCode := True\<rparr>))"
proof -
  from pattern_length [OF assms]
  have "trim (searchInput s) \<noteq> []" "\<not> length (trim (searchInput s)) < 2"
    by auto
  with assms show ?thesis
    by (simp add: searchMP_def Let_def split_beta)
qed

lemma textSearch_none:
  "filter (textMatches lc (lc query)) (allMPs s) = [] \<Longrightarrow>
   textSearch lc query s =
     ([], s\<lparr>error := ustr ''No MP found. Try searching by postal code, MP name, constituency, city, or province.'',
            loading := False\<rparr>)"
  by (simp add: textSearch_def)

lemma textSearch_one:
  "filter (textMatches lc (lc query)) (allMPs s) = [m] \<Longrightarrow>
   textSearch lc query s =
     ([TrackEvent (ustr ''Search MP'') (fullName m) (constituency m)],
      s\<lparr>mp := Some m, loading := False\<rparr>)"
  by (simp add: textSearch_def)

lemma textSearch_many:
  "1 < length (filter (textMatches lc (lc query)) (allMPs s)) \<Longrightarrow>
   textSearch lc query s =
     ([], s\<lparr>suggestions := take 10 (filter (textMatches lc (lc query)) (allMPs s)),
            error := foundMatchesMessage (length (filter (textMatches lc (lc query)) (allMPs s))),
            loading := False\<rparr>)"
  by (cases "filter (textMatches lc (lc query)) (allMPs s)" rule: remdups_adj.cases)
     (simp_all add: textSearch_def Let_def)

lemma postalCodeLookup_district:
  assumes "federalDistrict_of lc d = Some b"
  shows "postalCodeLookup lc q (Response True (Inr d)) s =
     (FetchPostcode q # fst (resolveDistrict lc q (name b) s),
      (snd (resolveDistrict lc q (name b) s))\<lparr>loading := False\<rparr>)"
  using assms by (simp add: postalCodeLookup_def split_beta)

lemma resolveDistrict_found:
  "foundMP_of lc (allMPs s) n = Some m \<Longrightarrow>
   resolveDistrict lc q n s =
     ([TrackEvent (ustr ''Search MP'') (fullName m) (constituency m)], s\<lparr>mp := Some m\<rparr>)"
  by (simp add: resolveDistrict_def)

lemma resolveDistrict_default:
  "foundMP_of lc (allMPs s) n = None \<Longrightarrow>
   find (\<lambda>m. fullName m = ustr ''Mark Carney'') (allMPs s) = Some mc \<Longrightarrow>
   resolveDistrict lc q n s =
     ([TrackEvent (ustr ''Search MP'') (fullName mc) n],
      s\<lparr>mp := Some (mc\<lparr>isDefault := Some True, actualConstituency := Some n,
                         postalCode := Some q\<rparr>),
        error := vacantNote n\<rparr>)"
  by (simp add: resolveDistrict_def)

lemma resolveDistrict_nobody:
  "foundMP_of lc (allMPs s) n = None \<Longrightarrow>
   find (\<lambda>m. fullName m = ustr ''Mark Carney'') (allMPs s) = None \<Longrightarrow>
   resolveDistrict lc q n s = ([], s\<lparr>error := noMatchMessage n\<rparr>)"
  by (simp add: resolveDistrict_def)

lemma foundMP_of_exact:
  "find (\<lambda>m. lc (constituency m) = lc n) roster = Some m \<Longrightarrow> foundMP_of lc roster n = Some m"
  by (simp add: foundMP_of_def)

lemma foundMP_of_None:
  "foundMP_of lc roster n = None \<longleftrightarrow>
   (\<forall>m\<in>set roster. lc (constituency m) \<noteq> lc n \<and>
      \<not> startsWith (lc (constituency m)) (constituencyFirstPart_of lc n))"
  by (auto simp: foundMP_of_def find_None_all split: option.splits dest: find_Some_first)

lemma postalCodeLookup_shape:
  assumes "mp s = None" "suggestions s = []" "error s = []"
  shows "suggestions (snd (postalCodeLookup lc q r s)) = [] \<and>
     (\<forall>m. mp (snd (postalCodeLookup lc q r s)) = Some m \<and> error (snd (postalCodeLookup lc q r s)) \<noteq> []
        \<longrightarrow> isDefault m = Some True \<and> actualConstituency m \<noteq> None)"
  using assms
  by (auto simp: postalCodeLookup_def resolveDistrict_def split_beta
      split: fetch_result.splits sum.splits option.splits)

lemma textSearch_shape:
  assumes "mp s = None" "suggestions s = []" "error s = []"
  shows "\<not> (mp (snd (textSearch lc q s)) \<noteq> None \<and> suggestions (snd (textSearch lc q s)) \<noteq> []) \<and>
     (suggestions (snd (textSearch lc q s)) \<noteq> [] \<longrightarrow> error (snd (textSearch lc q s)) \<noteq> []) \<and>
     (mp (snd (textSearch lc q s)) \<noteq> None \<longrightarrow> error (snd (textSearch lc q s)) = [])"
proof -
  consider (none) "filter (textMatches lc (lc q)) (allMPs s) = []"
    | (one) m where "filter (textMatches lc (lc q)) (allMPs s) = [m]"
    | (many) "1 < length (filter (textMatches lc (lc q)) (allMPs s))"
    by (cases "filter (textMatches lc (lc q)) (allMPs s)" rule: remdups_adj.cases) auto
  then show ?thesis
  proof cases
    case none
    from textSearch_none [OF this] assms show ?thesis by simp
  next
    case one
    from textSearch_one [OF this] assms show ?thesis by simp
  next
    case many
    from textSearch_many [OF this] assms show ?thesis
      by (simp add: foundMatchesMessage_nonempty)
  qed
qed

section \<open>Claims on the resolver\<close>

text \<open>
  Claim C9.  When the trimmed input is empty or shorter than two characters, the search
  only sets a validation message: nothing is sent to the network, and neither the
  postal-code path nor the text path runs (every other cell of the state keeps its
  value).
\<close>

theorem searchMP_validation_error:
  assumes "length (trim (searchInput s)) < 2"
  shows "\<exists>msg. msg \<noteq> [] \<and> searchMP lc uc r s = (ValidationOnly, [], s\<lparr>error := msg\<rparr>)"
proof (cases "trim (searchInput s) = []")
  case True
  then have "searchMP lc uc r s = (ValidationOnly, [],
     s\<lparr>error := ustr ''Please enter a postal code, MP name, constituency, or city''\<rparr>)"
    by (simp add: searchMP_def)
  moreover have "ustr ''Please enter a postal code, MP name, constituency, or city'' \<noteq> []"
    by (simp add: ustr_def)
  ultimately show ?thesis by blast
next
  case False
  with assms have "searchMP lc uc r s = (ValidationOnly, [],
     s\<lparr>error := ustr ''Please enter at least 2 characters''\<rparr>)"
    by (simp add: searchMP_def)
  moreover have "ustr ''Please enter at least 2 characters'' \<noteq> []"
    by (simp add: ustr_def)
  ultimately show ?thesis by blast
qed

theorem searchMP_validation_error_witness:
  "length (trim (searchInput (newSession (ustr '' a '') [janeDoe]))) < 2 \<and>
   (\<exists>msg. msg \<noteq> [] \<and>
      searchMP asciiLower asciiUpper (Rejected NotAnError) (newSession (ustr '' a '') [janeDoe])
        = (ValidationOnly, [], (newSession (ustr '' a '') [janeDoe])\<lparr>error := msg\<rparr>))"
proof -
  have h: "length (trim (searchInput (newSession (ustr '' a '') [janeDoe]))) < 2"
    by (simp add: sample_defs string_defs)
  show ?thesis
    by (rule conjI [OF h searchMP_validation_error [OF h]])
qed

text \<open>
  Claim C6.  For a query of at least two characters that is not a postal code, the text
  path ends in exactly one of three ways: no roster record matches and the not-found
  message is set; one record matches and it is the single result; several match and the
  suggestions are the first ten matches in roster order.
\<close>

theorem searchMP_text_outcome:
  assumes "2 \<le> length (trim (searchInput s))"
      and "\<not> postalCodePattern_test (trim (searchInput s))"
      and "results = filter (textMatches lc (lc (trim (searchInput s)))) (allMPs s)"
  shows "\<exists>effs s'. searchMP lc uc r s = (TextPath, effs, s') \<and>
     (results = [] \<longrightarrow>
        mp s' = None \<and> suggestions s' = [] \<and>
        error s' = ustr ''No MP found. Try searching by postal code, MP name, constituency, city, or province.'') \<and>
     (\<forall>m. results = [m] \<longrightarrow> mp s' = Some m \<and> suggestions s' = [] \<and> error s' = []) \<and>
     (1 < length results \<longrightarrow>
        mp s' = None \<and> suggestions s' = take 10 results \<and> length (suggestions s') \<le> 10)"
proof -
  let ?s1 = "s\<lparr>loading := True, error := [], mp := None, suggestions := [], usedPostalCode := False\<rparr>"
  have roster: "allMPs ?s1 = allMPs s" by simp
  consider (none) "results = []" | (one) m where "results = [m]" | (many) "1 < length results"
    by (cases results rule: remdups_adj.cases) auto
  then show ?thesis
  proof cases
    case none
    with assms(3) have "filter (textMatches lc (lc (trim (searchInput s)))) (allMPs ?s1) = []"
      by simp
    from textSearch_none [OF this] none show ?thesis
      unfolding searchMP_text [OF assms(1,2)] by simp
  next
    case one
    with assms(3) have "filter (textMatches lc (lc (trim (searchInput s)))) (allMPs ?s1) = [m]"
      by simp
    from textSearch_one [OF this] one show ?thesis
      unfolding searchMP_text [OF assms(1,2)] by simp
  next
    case many
    with assms(3) have "1 < length (filter (textMatches lc (lc (trim (searchInput s)))) (allMPs ?s1))"
      by simp
    from textSearch_many [OF this] many assms(3) show ?thesis
      unfolding searchMP_text [OF assms(1,2)] by auto
  qed
qed

theorem searchMP_text_outcome_witness:
  "(\<exists>effs s'. searchMP asciiLower asciiUpper (Rejected NotAnError)
        (newSession (ustr ''DOE'') [janeDoe, markCarney]) = (TextPath, effs, s') \<and>
      mp s' = Some janeDoe \<and> suggestions s' = [] \<and> error s' = []) \<and>
   (\<exists>effs s'. searchMP asciiLower asciiUpper (Rejected NotAnError)
        (newSession (ustr ''zz'') [janeDoe, markCarney]) = (TextPath, effs, s') \<and>
      mp s' = None \<and> suggestions s' = [] \<and> error s' \<noteq> []) \<and>
   (\<exists>effs s'. searchMP asciiLower asciiUpper (Rejected NotAnError)
        (newSession (ustr ''ontario'') ontarioRoster) = (TextPath, effs, s') \<and>
      mp s' = None \<and> suggestions s' = take 10 ontarioRoster \<and> length (suggestions s') = 10 \<and>
      length ontarioRoster = 12)"
proof (intro conjI)
  let ?s = "newSession (ustr ''DOE'') [janeDoe, markCarney]"
  have a: "2 \<le> length (trim (searchInput ?s))"
    by (simp add: sample_defs string_defs)
  have b: "\<not> postalCodePattern_test (trim (searchInput ?s))"
    by (simp add: sample_defs string_defs)
  have c: "[janeDoe] = filter (textMatches asciiLower (asciiLower (trim (searchInput ?s)))) (allMPs ?s)"
    by (simp add: sample_defs string_defs textMatches_def)
  from searchMP_text_outcome [OF a b c, of asciiUpper "Rejected NotAnError"]
  show "\<exists>effs s'. searchMP asciiLower asciiUpper (Rejected NotAnError) ?s = (TextPath, effs, s') \<and>
      mp s' = Some janeDoe \<and> suggestions s' = [] \<and> error s' = []"
    by (elim exE conjE) simp
next
  let ?s = "newSession (ustr ''zz'') [janeDoe, markCarney]"
  have a: "2 \<le> length (trim (searchInput ?s))"
    by (simp add: sample_defs string_defs)
  have b: "\<not> postalCodePattern_test (trim (searchInput ?s))"
    by (simp add: sample_defs string_defs)
  have c: "[] = filter (textMatches asciiLower (asciiLower (trim (searchInput ?s)))) (allMPs ?s)"
    by (simp add: sample_defs string_defs textMatches_def)
  from searchMP_text_outcome [OF a b c, of asciiUpper "Rejected NotAnError"]
  show "\<exists>effs s'. searchMP asciiLower asciiUpper (Rejected NotAnError) ?s = (TextPath, effs, s') \<and>
      mp s' = None \<and> suggestions s' = [] \<and> error s' \<noteq> []"
    by (elim exE conjE) (simp add: ustr_def)
next
  let ?s = "newSession (ustr ''ontario'') ontarioRoster"
  have a: "2 \<le> length (trim (searchInput ?s))"
    by (simp add: sample_defs string_defs)
  have b: "\<not> postalCodePattern_test (trim (searchInput ?s))"
    by (simp add: sample_defs string_defs)
  have c: "ontarioRoster = filter (textMatches asciiLower (asciiLower (trim (searchInput ?s)))) (allMPs ?s)"
    by (simp add: sample_defs string_defs textMatches_def)
  have d: "length ontarioRoster = 12"
    by (simp add: ontarioRoster_def)
  from searchMP_text_outcome [OF a b c, of asciiUpper "Rejected NotAnError"] d
  show "\<exists>effs s'. searchMP asciiLower asciiUpper (Rejected NotAnError) ?s = (TextPath, effs, s') \<and>
      mp s' = None \<and> suggestions s' = take 10 ontarioRoster \<and> length (suggestions s') = 10 \<and>
      length ontarioRoster = 12"
    by (elim exE conjE) simp
qed

text \<open>
  Claim C4.  When the roster has a record whose constituency equals the resolved
  district name in lower case, the postal-code path returns the first such record of the
  roster as the single result, with no message: the default contact is not substituted.
\<close>

theorem searchMP_exact_match:
  assumes "postalCodePattern_test (trim (searchInput s))"
      and "federalDistrict_of lc d = Some b"
      and "\<exists>m\<in>set (allMPs s). lc (constituency m) = lc (name b)"
  shows "\<exists>m effs s'. searchMP lc uc (Response True (Inr d)) s = (PostalCodePath, effs, s') \<and>
     find (\<lambda>m. lc (constituency m) = lc (name b)) (allMPs s) = Some m \<and>
     m \<in> set (allMPs s) \<and> lc (constituency m) = lc (name b) \<and>
     mp s' = Some m \<and> suggestions s' = [] \<and> error s' = []"
proof -
  let ?s1 = "s\<lparr>loading := True, error := [], mp := None, suggestions := [], usedPostalCode := True\<rparr>"
  from find_exists [of "allMPs s" "\<lambda>m. lc (constituency m) = lc (name b)"] assms(3)
  obtain m where m: "find (\<lambda>m. lc (constituency m) = lc (name b)) (allMPs s) = Some m"
    by blast
  then have "foundMP_of lc (allMPs ?s1) (name b) = Some m"
    by (simp add: foundMP_of_exact)
  from resolveDistrict_found [OF this] find_Some_first [OF m] m show ?thesis
    unfolding searchMP_postal [OF assms(1)] postalCodeLookup_district [OF assms(2)]
    by simp
qed

theorem searchMP_exact_match_witness:
  "\<exists>effs s'. searchMP asciiLower asciiUpper (Response True (Inr (federalData (ustr ''NEPEAN''))))
       (newSession (ustr ''k1a 0b1'') [janeDoe, markCarney, johnRoe]) = (PostalCodePath, effs, s') \<and>
     mp s' = Some markCarney \<and> suggestions s' = [] \<and> error s' = []"
proof -
  let ?s = "newSession (ustr ''k1a 0b1'') [janeDoe, markCarney, johnRoe]"
  let ?b = "federalBoundary (ustr ''NEPEAN'')"
  have a: "postalCodePattern_test (trim (searchInput ?s))"
    by (simp add: sample_defs string_defs)
  have b: "federalDistrict_of asciiLower (federalData (ustr ''NEPEAN'')) = Some ?b"
    by (simp add: federalDistrict_of_def boundaries_of_def sample_defs string_defs)
  have c: "\<exists>m\<in>set (allMPs ?s). asciiLower (constituency m) = asciiLower (name ?b)"
    by (simp add: sample_defs string_defs)
  have d: "find (\<lambda>m. asciiLower (constituency m) = asciiLower (name ?b)) (allMPs ?s) = Some markCarney"
    by (simp add: sample_defs string_defs)
  from searchMP_exact_match [OF a b c, of asciiUpper] d show ?thesis
    by (elim exE conjE) simp
qed

text \<open>
  Claim C5.  When no roster record matches the district name exactly or by prefix, the
  roster's \<^verbatim>\<open>Mark Carney\<close> record is returned with \<^verbatim>\<open>isDefault\<close> set, the district name
  as \<^verbatim>\<open>actualConstituency\<close> and the upper-cased, space-free input as \<^verbatim>\<open>postalCode\<close>,
  every other field unchanged; without such a record the search ends with a message and
  no result.
\<close>

theorem searchMP_default_contact:
  assumes "postalCodePattern_test (trim (searchInput s))"
      and "federalDistrict_of lc d = Some b"
      and "\<forall>m\<in>set (allMPs s). lc (constituency m) \<noteq> lc (name b) \<and>
             \<not> startsWith (lc (constituency m)) (constituencyFirstPart_of lc (name b))"
  shows "\<exists>effs s'. searchMP lc uc (Response True (Inr d)) s = (PostalCodePath, effs, s') \<and>
     (\<forall>mc. find (\<lambda>m. fullName m = ustr ''Mark Carney'') (allMPs s) = Some mc \<longrightarrow>
        mp s' = Some (mc\<lparr>isDefault := Some True, actualConstituency := Some (name b),
            postalCode := Some (filter (\<lambda>c. \<not> isWhiteSpace c) (uc (trim (searchInput s))))\<rparr>)) \<and>
     ((\<forall>m\<in>set (allMPs s). fullName m \<noteq> ustr ''Mark Carney'') \<longrightarrow>
        mp s' = None \<and> suggestions s' = [] \<and> error s' \<noteq> [])"
proof -
  let ?s1 = "s\<lparr>loading := True, error := [], mp := None, suggestions := [], usedPostalCode := True\<rparr>"
  from assms(3) have none: "foundMP_of lc (allMPs ?s1) (name b) = None"
    by (simp add: foundMP_of_None)
  show ?thesis
  proof (cases "find (\<lambda>m. fullName m = ustr ''Mark Carney'') (allMPs s)")
    case None
    then have "find (\<lambda>m. fullName m = ustr ''Mark Carney'') (allMPs ?s1) = None"
      by simp
    from resolveDistrict_nobody [OF none this] None show ?thesis
      unfolding searchMP_postal [OF assms(1)] postalCodeLookup_district [OF assms(2)]
      by (simp add: noMatchMessage_nonempty)
  next
    case (Some mc)
    then have "find (\<lambda>m. fullName m = ustr ''Mark Carney'') (allMPs ?s1) = Some mc"
      by simp
    from resolveDistrict_default [OF none this] Some find_Some_first [OF Some] show ?thesis
      unfolding searchMP_postal [OF assms(1)] postalCodeLookup_district [OF assms(2)]
      by (auto simp: queryUpper_of_def)
  qed
qed

theorem searchMP_default_contact_witness:
  "(\<exists>effs s'. searchMP asciiLower asciiUpper (Response True (Inr (federalData (ustr ''Vacant Riding''))))
       (newSession (ustr ''k1a 0b1'') [janeDoe, markCarney, johnRoe]) = (PostalCodePath, effs, s') \<and>
     mp s' = Some (markCarney\<lparr>isDefault := Some True,
                     actualConstituency := Some (ustr ''Vacant Riding''),
                     postalCode := Some (ustr ''K1A0B1'')\<rparr>)) \<and>
   (\<exists>effs s'. searchMP asciiLower asciiUpper (Response True (Inr (federalData (ustr ''Vacant Riding''))))
       (newSession (ustr ''k1a 0b1'') [janeDoe, johnRoe]) = (PostalCodePath, effs, s') \<and>
     mp s' = None \<and> suggestions s' = [] \<and> error s' \<noteq> [])"
proof (intro conjI)
  let ?s = "newSession (ustr ''k1a 0b1'') [janeDoe, markCarney, johnRoe]"
  let ?b = "federalBoundary (ustr ''Vacant Riding'')"
  have a: "postalCodePattern_test (trim (searchInput ?s))"
    by (simp add: sample_defs string_defs)
  have b: "federalDistrict_of asciiLower (federalData (ustr ''Vacant Riding'')) = Some ?b"
    by (simp add: federalDistrict_of_def boundaries_of_def sample_defs string_defs)
  have c: "\<forall>m\<in>set (allMPs ?s). asciiLower (constituency m) \<noteq> asciiLower (name ?b) \<and>
      \<not> startsWith (asciiLower (constituency m)) (constituencyFirstPart_of asciiLower (name ?b))"
    by (simp add: constituencyFirstPart_of_def sample_defs string_defs)
  have d: "find (\<lambda>m. fullName m = ustr ''Mark Carney'') (allMPs ?s) = Some markCarney"
    by (simp add: sample_defs string_defs)
  have e: "filter (\<lambda>c. \<not> isWhiteSpace c) (asciiUpper (trim (searchInput ?s))) = ustr ''K1A0B1''"
    by (simp add: sample_defs string_defs)
  have f: "name ?b = ustr ''Vacant Riding''"
    by (simp add: federalBoundary_def)
  from searchMP_default_contact [OF a b c, of asciiUpper] d
  show "\<exists>effs s'. searchMP asciiLower asciiUpper (Response True (Inr (federalData (ustr ''Vacant Riding'')))) ?s
        = (PostalCodePath, effs, s') \<and>
     mp s' = Some (markCarney\<lparr>isDefault := Some True,
                     actualConstituency := Some (ustr ''Vacant Riding''),
                     postalCode := Some (ustr ''K1A0B1'')\<rparr>)"
    unfolding e f by (elim exE conjE) simp
next
  let ?s = "newSession (ustr ''k1a 0b1'') [janeDoe, johnRoe]"
  let ?b = "federalBoundary (ustr ''Vacant Riding'')"
  have a: "postalCodePattern_test (trim (searchInput ?s))"
    by (simp add: sample_defs string_defs)
  have b: "federalDistrict_of asciiLower (federalData (ustr ''Vacant Riding'')) = Some ?b"
    by (simp add: federalDistrict_of_def boundaries_of_def sample_defs string_defs)
  have c: "\<forall>m\<in>set (allMPs ?s). asciiLower (constituency m) \<noteq> asciiLower (name ?b) \<and>
      \<not> startsWith (asciiLower (constituency m)) (constituencyFirstPart_of asciiLower (name ?b))"
    by (simp add: constituencyFirstPart_of_def sample_defs string_defs)
  have d: "\<forall>m\<in>set (allMPs ?s). fullName m \<noteq> ustr ''Mark Carney''"
    by (simp add: sample_defs string_defs)
  from searchMP_default_contact [OF a b c, of asciiUpper] d
  show "\<exists>effs s'. searchMP asciiLower asciiUpper (Response True (Inr (federalData (ustr ''Vacant Riding'')))) ?s
        = (PostalCodePath, effs, s') \<and> mp s' = None \<and> suggestions s' = [] \<and> error s' \<noteq> []"
    by (elim exE conjE) simp
qed

text \<open>
  Claim C1, as stated, fails: a text search with several hits fills the suggestion list
  and the message.
\<close>

theorem searchMP_three_fields_counterexample:
  "suggestions (snd (snd (searchMP asciiLower asciiUpper (Rejected NotAnError)
       (newSession (ustr ''ontario'') [janeDoe, markCarney])))) \<noteq> [] \<and>
   error (snd (snd (searchMP asciiLower asciiUpper (Rejected NotAnError)
       (newSession (ustr ''ontario'') [janeDoe, markCarney])))) \<noteq> []"
proof -
  let ?s = "newSession (ustr ''ontario'') [janeDoe, markCarney]"
  let ?s1 = "?s\<lparr>loading := True, error := [], mp := None, suggestions := [], usedPostalCode := False\<rparr>"
  have a: "2 \<le> length (trim (searchInput ?s))"
    by (simp add: sample_defs string_defs)
  have b: "\<not> postalCodePattern_test (trim (searchInput ?s))"
    by (simp add: sample_defs string_defs)
  have c: "filter (textMatches asciiLower (asciiLower (trim (searchInput ?s)))) (allMPs ?s1) = [janeDoe, markCarney]"
    by (simp add: sample_defs string_defs textMatches_def)
  then have "1 < length (filter (textMatches asciiLower (asciiLower (trim (searchInput ?s)))) (allMPs ?s1))"
    by simp
  from textSearch_many [OF this] show ?thesis
    unfolding searchMP_text [OF a b] c by (simp add: foundMatchesMessage_nonempty)
qed

text \<open>
  Claim C1, amended.  After a search that passes validation, the single result and the
  suggestion list are never both populated; a message accompanies every suggestion
  list, and it accompanies a result only when the postal-code path has substituted the
  default contact.
\<close>

theorem searchMP_result_and_suggestions_exclusive:
  assumes "2 \<le> length (trim (searchInput s))"
      and "searchMP lc uc r s = (p, effs, s')"
  shows "\<not> (mp s' \<noteq> None \<and> suggestions s' \<noteq> []) \<and>
     (suggestions s' \<noteq> [] \<longrightarrow> error s' \<noteq> []) \<and>
     (\<forall>m. mp s' = Some m \<and> error s' \<noteq> [] \<longrightarrow>
        p = PostalCodePath \<and> isDefault m = Some True \<and> actualConstituency m \<noteq> None)"
proof (cases "postalCodePattern_test (trim (searchInput s))")
  case True
  let ?s1 = "s\<lparr>loading := True, error := [], mp := None, suggestions := [], usedPostalCode := True\<rparr>"
  have "mp ?s1 = None" "suggestions ?s1 = []" "error ?s1 = []" by simp_all
  from postalCodeLookup_shape [OF this, of lc "queryUpper_of uc (trim (searchInput s))" r] assms(2)
  show ?thesis
    unfolding searchMP_postal [OF True] by (cases "postalCodeLookup lc (queryUpper_of uc (trim (searchInput s))) r ?s1") auto
next
  case False
  let ?s1 = "s\<lparr>loading := True, error := [], mp := None, suggestions := [], usedPostalCode := False\<rparr>"
  have "mp ?s1 = None" "suggestions ?s1 = []" "error ?s1 = []" by simp_all
  from textSearch_shape [OF this, of lc "trim (searchInput s)"] assms(2)
  show ?thesis
    unfolding searchMP_text [OF assms(1) False] by (cases "textSearch lc (trim (searchInput s)) ?s1") auto
qed

theorem searchMP_result_and_suggestions_exclusive_witness:
  "2 \<le> length (trim (searchInput (newSession (ustr ''ontario'') [janeDoe, markCarney]))) \<and>
   \<not> (mp (snd (snd (searchMP asciiLower asciiUpper (Rejected NotAnError)
          (newSession (ustr ''ontario'') [janeDoe, markCarney])))) \<noteq> None \<and>
      suggestions (snd (snd (searchMP asciiLower asciiUpper (Rejected NotAnError)
          (newSession (ustr ''ontario'') [janeDoe, markCarney])))) \<noteq> [])"
proof -
  let ?s = "newSession (ustr ''ontario'') [janeDoe, markCarney]"
  let ?X = "searchMP asciiLower asciiUpper (Rejected NotAnError) ?s"
  have a: "2 \<le> length (trim (searchInput ?s))"
    by (simp add: sample_defs string_defs)
  have b: "?X = (fst ?X, fst (snd ?X), snd (snd ?X))"
    by simp
  from searchMP_result_and_suggestions_exclusive [OF a b] a show ?thesis
    by (elim conjE) (rule conjI)
qed

lemma asciiFold_classes:
  "isAsciiLetter (asciiFold c) = isAsciiLetter c"
  "isDigit (asciiFold c) = isDigit c"
  "isWhiteSpace (asciiFold c) = isWhiteSpace c"
  by (auto simp: asciiFold_def isAsciiLetter_def isDigit_def isWhiteSpace_def)

lemma pattern_fold: "postalCodePattern_test (map asciiFold q) = postalCodePattern_test q"
  by (induction q rule: postalCodePattern_test.induct) (simp_all add: asciiFold_classes)

lemma class_disjoint:
  "isWhiteSpace w \<Longrightarrow> \<not> isAsciiLetter w" "isWhiteSpace w \<Longrightarrow> \<not> isDigit w"
  "isDigit c \<Longrightarrow> \<not> isWhiteSpace c" "isAsciiLetter c \<Longrightarrow> \<not> isWhiteSpace c"
  by (auto simp: isAsciiLetter_def isDigit_def isWhiteSpace_def)

text \<open>
  Claim C3, as stated, fails: white space between the first two characters of a postal
  code turns the input into a text query.
\<close>

theorem postal_classification_counterexample:
  "fst (searchMP asciiLower asciiUpper (Rejected NotAnError) (newSession (ustr ''K1A0B1'') [])) = PostalCodePath \<and>
   fst (searchMP asciiLower asciiUpper (Rejected NotAnError) (newSession (ustr ''K 1A0B1'') [])) = TextPath"
proof -
  have a: "postalCodePattern_test (trim (searchInput (newSession (ustr ''K1A0B1'') [])))"
    by (simp add: sample_defs string_defs)
  have b: "2 \<le> length (trim (searchInput (newSession (ustr ''K 1A0B1'') [])))"
    by (simp add: sample_defs string_defs)
  have c: "\<not> postalCodePattern_test (trim (searchInput (newSession (ustr ''K 1A0B1'') [])))"
    by (simp add: sample_defs string_defs)
  show ?thesis
    unfolding searchMP_postal [OF a] searchMP_text [OF b c] by simp
qed

lemma searchMP_path_iff:
  "fst (searchMP lc uc r s) = PostalCodePath \<longleftrightarrow> postalCodePattern_test (trim (searchInput s))"
proof (cases "postalCodePattern_test (trim (searchInput s))")
  case True
  then show ?thesis by (simp add: searchMP_postal)
next
  case False
  then show ?thesis
    by (simp add: searchMP_def Let_def split_beta)
qed

lemma dropWhile_map_fold:
  "dropWhile isWhiteSpace (map asciiFold q) = map asciiFold (dropWhile isWhiteSpace q)"
  by (induction q) (simp_all add: asciiFold_classes)

lemma trim_map_fold: "trim (map asciiFold q) = map asciiFold (trim q)"
  by (simp add: trim_def rev_map dropWhile_map_fold)

lemma trim_leading:
  assumes "s \<noteq> []" "\<not> isWhiteSpace (hd s)" "\<not> isWhiteSpace (last s)" "isWhiteSpace w"
  shows "trim (w # s) = s"
proof -
  from assms(1,2) have "dropWhile isWhiteSpace (w # s) = s"
    using assms(4) by (cases s) simp_all
  moreover from assms(1,3) have "dropWhile isWhiteSpace (rev s) = rev s"
    by (cases s rule: rev_cases) simp_all
  ultimately show ?thesis by (simp add: trim_def)
qed

lemma trim_inside:
  assumes "\<not> isWhiteSpace x" "\<not> isWhiteSpace y"
  shows "trim (x # m @ [y]) = x # m @ [y]"
  using assms trim_core [of "x # m @ [y]" "[]"] by simp

text \<open>
  Claim C3, amended.  Whether an input takes the postal-code path does not depend on the
  case of its ASCII letters.  One white-space character put into a six-character postal
  code at position \<open>i\<close> leaves it a postal code exactly when it comes first or last, where
  \<^verbatim>\<open>trim\<close> removes it, or follows the third character, where the pattern allows it.
\<close>

theorem postal_classification_case_and_space:
  "(map asciiFold (searchInput s) = map asciiFold (searchInput s') \<longrightarrow>
      (fst (searchMP lc uc r s) = PostalCodePath \<longleftrightarrow> fst (searchMP lc uc r s') = PostalCodePath)) \<and>
   (postalCodePattern_test [a, b, c, d, e, f] \<and> isWhiteSpace w \<and>
    searchInput s = take i [a, b, c, d, e, f] @ w # drop i [a, b, c, d, e, f] \<longrightarrow>
      (fst (searchMP lc uc r s) = PostalCodePath \<longleftrightarrow> i = 0 \<or> i = 3 \<or> 6 \<le> i))"
proof (intro conjI impI)
  assume "map asciiFold (searchInput s) = map asciiFold (searchInput s')"
  then have "map asciiFold (trim (searchInput s)) = map asciiFold (trim (searchInput s'))"
    by (simp add: trim_map_fold [symmetric])
  then have "postalCodePattern_test (trim (searchInput s)) = postalCodePattern_test (trim (searchInput s'))"
    using pattern_fold [of "trim (searchInput s)"] pattern_fold [of "trim (searchInput s')"] by simp
  then show "fst (searchMP lc uc r s) = PostalCodePath \<longleftrightarrow> fst (searchMP lc uc r s') = PostalCodePath"
    by (simp add: searchMP_path_iff)
next
  assume h: "postalCodePattern_test [a, b, c, d, e, f] \<and> isWhiteSpace w \<and>
    searchInput s = take i [a, b, c, d, e, f] @ w # drop i [a, b, c, d, e, f]"
  then have l: "isAsciiLetter a" "isDigit b" "isAsciiLetter c" "isDigit d" "isAsciiLetter e" "isDigit f"
    and w: "isWhiteSpace w"
    and input: "searchInput s = take i [a, b, c, d, e, f] @ w # drop i [a, b, c, d, e, f]"
    by simp_all
  note dis = class_disjoint(1,2) [OF w] class_disjoint(3) [OF l(2)] class_disjoint(3) [OF l(4)]
    class_disjoint(3) [OF l(6)] class_disjoint(4) [OF l(1)] class_disjoint(4) [OF l(3)]
    class_disjoint(4) [OF l(5)]
  have whole: "trim [a, b, c, d, e, f] = [a, b, c, d, e, f]"
    using trim_inside [of a f "[b, c, d, e]"] dis by simp
  consider "i = 0" | "i = Suc 0" | "i = Suc (Suc 0)" | "i = 3" | "i = Suc (Suc (Suc (Suc 0)))"
    | "i = Suc (Suc (Suc (Suc (Suc 0))))" | "6 \<le> i"
    by linarith
  then have "postalCodePattern_test (trim (searchInput s)) \<longleftrightarrow> i = 0 \<or> i = 3 \<or> 6 \<le> i"
  proof cases
    case 1
    have "trim (w # [a, b, c, d, e, f]) = [a, b, c, d, e, f]"
      using trim_leading [of "[a, b, c, d, e, f]" w] dis w by simp
    with 1 input l show ?thesis by simp
  next
    case 2
    have "trim [a, w, b, c, d, e, f] = [a, w, b, c, d, e, f]"
      using trim_inside [of a f "[w, b, c, d, e]"] dis by simp
    with 2 input dis show ?thesis by simp
  next
    case 3
    have "trim [a, b, w, c, d, e, f] = [a, b, w, c, d, e, f]"
      using trim_inside [of a f "[b, w, c, d, e]"] dis by simp
    with 3 input dis show ?thesis by simp
  next
    case 4
    have "take 3 [a, b, c, d, e, f] @ w # drop 3 [a, b, c, d, e, f] = [a, b, c, w, d, e, f]"
      by (simp add: eval_nat_numeral)
    moreover have "trim [a, b, c, w, d, e, f] = [a, b, c, w, d, e, f]"
      using trim_inside [of a f "[b, c, w, d, e]"] dis by simp
    ultimately show ?thesis using 4 input l w by simp
  next
    case 5
    have "trim [a, b, c, d, w, e, f] = [a, b, c, d, w, e, f]"
      using trim_inside [of a f "[b, c, d, w, e]"] dis by simp
    with 5 input dis show ?thesis by simp
  next
    case 6
    have "trim [a, b, c, d, e, w, f] = [a, b, c, d, e, w, f]"
      using trim_inside [of a f "[b, c, d, e, w]"] dis by simp
    with 6 input dis show ?thesis by simp
  next
    case 7
    then have "searchInput s = [a, b, c, d, e, f] @ [w]"
      using input by simp
    moreover have "trim ([a, b, c, d, e, f] @ [w]) = [a, b, c, d, e, f]"
      using trim_core [of "[a, b, c, d, e, f]" "[w]"] dis w by simp
    ultimately show ?thesis using 7 l by simp
  qed
  then show "fst (searchMP lc uc r s) = PostalCodePath \<longleftrightarrow> i = 0 \<or> i = 3 \<or> 6 \<le> i"
    by (simp add: searchMP_path_iff)
qed

theorem postal_classification_case_and_space_witness:
  "(fst (searchMP asciiLower asciiUpper (Rejected NotAnError) (newSession (ustr ''k1a0b1'') []))
      = PostalCodePath \<longleftrightarrow>
    fst (searchMP asciiLower asciiUpper (Rejected NotAnError) (newSession (ustr ''K1A0B1'') []))
      = PostalCodePath) \<and>
   (fst (searchMP asciiLower asciiUpper (Rejected NotAnError)
      (newSession (take 3 [75, 49, 65, 48, 66, 49] @ 32 # drop 3 [75, 49, 65, 48, 66, 49]) []))
      = PostalCodePath \<longleftrightarrow> (3::nat) = 0 \<or> (3::nat) = 3 \<or> 6 \<le> (3::nat))"
proof -
  let ?s = "newSession (ustr ''k1a0b1'') []"
  let ?s' = "newSession (ustr ''K1A0B1'') []"
  let ?t = "newSession (take 3 [75, 49, 65, 48, 66, 49] @ 32 # drop 3 [75, 49, 65, 48, 66, 49]) []"
  have a: "map asciiFold (searchInput ?s) = map asciiFold (searchInput ?s')"
    by (simp add: newSession_def ustr_def asciiFold_def)
  have b: "postalCodePattern_test [75, 49, 65, 48, 66, 49] \<and> isWhiteSpace 32 \<and>
    searchInput ?t = take 3 [75, 49, 65, 48, 66, 49] @ 32 # drop 3 [75, 49, 65, 48, 66, 49]"
    by (simp add: newSession_def string_defs)
  show ?thesis
    by (intro conjI
        postal_classification_case_and_space [where s = ?s and s' = ?s' and lc = asciiLower
          and uc = asciiUpper and r = "Rejected NotAnError", THEN conjunct1, THEN mp, OF a]
        postal_classification_case_and_space [where s = ?t and lc = asciiLower
          and uc = asciiUpper and r = "Rejected NotAnError" and a = 75 and b = 49 and c = 65
          and d = 48 and e = 66 and f = 49 and w = 32 and i = 3, THEN conjunct2, THEN mp, OF b])
qed

section \<open>Facts on replacing placeholders\<close>

lemma token_Cons: "\<exists>rest. token p = 91 # rest \<and> 91 \<notin> set rest"
  by (cases p) (simp_all add: ustr_def)

lemma getSubstitution_plain: "36 \<notin> set r \<Longrightarrow> getSubstitution m b a r = r"
  by (induction m b a r rule: getSubstitution.induct) auto

lemma replace_plain:
  "36 \<notin> set r \<Longrightarrow>
   replace s pat r = (case firstOccurrence pat s of None \<Rightarrow> s | Some (b, a) \<Rightarrow> b @ r @ a)"
  by (simp add: replace_def getSubstitution_plain split: option.splits)

lemma firstOccurrence_skip:
  "c \<notin> set t \<Longrightarrow>
   firstOccurrence (c # pat) (t @ x) = map_option (\<lambda>(b, a). (t @ b, a)) (firstOccurrence (c # pat) x)"
proof (induction t)
  case Nil
  show ?case by (simp add: option.map_ident split_def)
next
  case (Cons d t)
  then show ?case
    by (auto simp: startsWith_def option.map_comp comp_def split_def)
qed

lemma firstOccurrence_hit: "firstOccurrence (c # pat) ((c # pat) @ x) = Some ([], x)"
  by (simp add: startsWith_def)

lemma token_not_prefix: "p \<noteq> q \<Longrightarrow> \<not> startsWith (token q @ x) (token p)"
  by (cases p; cases q) (simp_all add: startsWith_def ustr_def)

lemma firstOccurrence_other:
  assumes "p \<noteq> q"
  shows "firstOccurrence (token p) (token q @ x) =
     map_option (\<lambda>(b, a). (token q @ b, a)) (firstOccurrence (token p) x)"
proof -
  obtain rp where rp: "token p = 91 # rp" using token_Cons by blast
  obtain rq where rq: "token q = 91 # rq" "91 \<notin> set rq" using token_Cons by blast
  have "\<not> startsWith (91 # rq @ x) (91 # rp)"
    using token_not_prefix [OF assms, of x] by (simp add: rp rq)
  then have "firstOccurrence (91 # rp) (91 # rq @ x) =
      map_option (\<lambda>(b, a). (91 # b, a)) (firstOccurrence (91 # rp) (rq @ x))"
    by simp
  also have "\<dots> = map_option (\<lambda>(b, a). (91 # rq @ b, a)) (firstOccurrence (91 # rp) x)"
    by (simp add: firstOccurrence_skip [OF rq(2)] option.map_comp comp_def split_def)
  finally show ?thesis by (simp add: rp rq)
qed

lemma replace_render:
  assumes "36 \<notin> set r"
  shows "plainSegments segs \<Longrightarrow> replace (render segs) (token p) r = render (fill p r segs)"
proof -
  obtain rp where rp: "token p = 91 # rp" using token_Cons by blast
  have "plainSegments segs \<Longrightarrow>
        (case firstOccurrence (token p) (render segs) of
           None \<Rightarrow> render segs | Some (b, a) \<Rightarrow> b @ r @ a) = render (fill p r segs)"
  proof (induction segs rule: render.induct)
    case 1
    show ?case by (simp add: rp)
  next
    case (2 t segs)
    then show ?case
      by (auto simp: rp firstOccurrence_skip split: option.splits)
  next
    case (3 q segs)
    show ?case
    proof (cases "q = p")
      case True
      then show ?thesis
        using firstOccurrence_hit [of 91 rp "render segs"] by (simp add: rp)
    next
      case False
      then have "p \<noteq> q" by simp
      from firstOccurrence_other [OF this, of "render segs"] 3 False show ?thesis
        by (auto split: option.splits)
    qed
  qed
  then show "plainSegments segs \<Longrightarrow> replace (render segs) (token p) r = render (fill p r segs)"
    by (simp add: replace_plain [OF assms])
qed

lemma plainSegments_fill: "91 \<notin> set r \<Longrightarrow> plainSegments segs \<Longrightarrow> plainSegments (fill p r segs)"
  by (induction segs rule: render.induct) auto

lemma slotCount_fill_same: "slotCount p (fill p r segs) = slotCount p segs - 1"
  by (induction segs rule: render.induct) auto

lemma slotCount_fill_other: "q \<noteq> p \<Longrightarrow> slotCount q (fill p r segs) = slotCount q segs"
  by (induction segs rule: render.induct) auto

lemma render_no_bracket:
  "plainSegments segs \<Longrightarrow> \<forall>p. slotCount p segs = 0 \<Longrightarrow> 91 \<notin> set (render segs)"
  by (induction segs rule: render.induct) (auto split: if_splits)

lemma includes_str_head: "includes_str s (c # pat) \<Longrightarrow> c \<in> set s"
  by (induction s) (auto simp: startsWith_def)

lemma no_bracket_no_token: "91 \<notin> set s \<Longrightarrow> \<not> includes_str s (token p)"
  using token_Cons [of p] includes_str_head by metis

section \<open>Claims on the composer\<close>

text \<open>
  Rounding to the nearest double: the binade found is the right one; a number below
  \<open>2 ^ 53\<close> that is at least an integer \<open>j\<close> is rounded to at least \<open>j\<close>; and a number that is
  at most \<open>j * (1 - 1 / 2 ^ 53)\<close>, for an integer \<open>j\<close> from 1 to \<open>2 ^ 53\<close>, is rounded to a
  double below \<open>j\<close>.
\<close>

lemma binade_bounds: "- 1022 \<le> e \<Longrightarrow> - 1022 \<le> binade x e \<and> binade x e \<le> e"
proof (induction x e rule: binade.induct)
  case (1 x e)
  then show ?case
    by (subst (1 2) binade.simps) auto
qed

lemma binade_low: "binade x e = - 1022 \<or> 2 powi (binade x e) \<le> x"
proof (induction x e rule: binade.induct)
  case (1 x e)
  then show ?case
    by (subst (1 2) binade.simps) auto
qed

lemma binade_high: "binade x e < e \<Longrightarrow> x < 2 powi (binade x e + 1)"
proof (induction x e rule: binade.induct)
  case (1 x e)
  show ?case
  proof (cases "e \<le> - 1022")
    case True
    with 1(2) show ?thesis by (simp add: binade.simps [of x e])
  next
    case False
    show ?thesis
    proof (cases "2 powi e \<le> x")
      case True
      with False 1(2) show ?thesis by (simp add: binade.simps [of x e])
    next
      case lt: False
      with False have eq: "binade x e = binade x (e - 1)"
        by (simp add: binade.simps [of x e])
      from False binade_bounds [of "e - 1" x] have "binade x (e - 1) \<le> e - 1" by simp
      then consider "binade x (e - 1) < e - 1" | "binade x (e - 1) = e - 1" by linarith
      then show ?thesis
      proof cases
        case 1
        with "1.IH" False lt show ?thesis by (simp add: eq)
      next
        case 2
        with lt show ?thesis by (simp add: eq)
      qed
    qed
  qed
qed

lemma binade_eq:
  assumes "- 1022 \<le> e" "e \<le> 1023" "2 powi e \<le> x" "x < 2 powi (e + 1)"
  shows "binade x 1023 = e"
proof -
  from binade_bounds [of 1023 x] have b: "- 1022 \<le> binade x 1023" "binade x 1023 \<le> 1023"
    by simp_all
  have "\<not> binade x 1023 < e"
  proof
    assume lt: "binade x 1023 < e"
    with assms(2) have "binade x 1023 < 1023" by simp
    from binade_high [OF this] have "x < 2 powi (binade x 1023 + 1)" .
    moreover from lt have "(2::real) powi (binade x 1023 + 1) \<le> 2 powi e"
      by (intro power_int_increasing) simp_all
    ultimately show False using assms(3) by simp
  qed
  moreover have "\<not> e < binade x 1023"
  proof
    assume gt: "e < binade x 1023"
    with assms(1) binade_low [of x 1023] have "2 powi (binade x 1023) \<le> x" by auto
    moreover from gt have "(2::real) powi (e + 1) \<le> 2 powi (binade x 1023)"
      by (intro power_int_increasing) simp_all
    ultimately show False using assms(4) by simp
  qed
  ultimately show ?thesis by simp
qed

lemma roundHalfEven_ge: "of_int J \<le> q \<Longrightarrow> J \<le> roundHalfEven q"
proof -
  assume "of_int J \<le> q"
  then have "J \<le> \<lfloor>q\<rfloor>" by (simp add: le_floor_iff)
  then show ?thesis by (simp add: roundHalfEven_def Let_def)
qed

lemma roundHalfEven_less: "q < of_int J - 1 / 2 \<Longrightarrow> roundHalfEven q < J"
proof -
  assume a: "q < of_int J - 1 / 2"
  then have "q < of_int J" by simp
  then have f: "\<lfloor>q\<rfloor> < J" by (simp add: floor_less_iff)
  show ?thesis
  proof (cases "\<lfloor>q\<rfloor> = J - 1")
    case True
    with a have "q - of_int \<lfloor>q\<rfloor> < 1 / 2" by simp
    with f show ?thesis by (simp add: roundHalfEven_def Let_def)
  next
    case False
    with f have "\<lfloor>q\<rfloor> + 1 < J" by simp
    then show ?thesis by (simp add: roundHalfEven_def Let_def)
  qed
qed

lemma binade_below_2_53:
  assumes "x < 2 ^ 53"
  shows "binade x 1023 \<le> 52"
proof (rule ccontr)
  assume "\<not> binade x 1023 \<le> 52"
  then have big: "53 \<le> binade x 1023" by simp
  with binade_low [of x 1023] have "2 powi (binade x 1023) \<le> x" by auto
  moreover from big have "(2::real) powi 53 \<le> 2 powi (binade x 1023)"
    by (intro power_int_increasing) simp_all
  ultimately show False using assms by simp
qed

lemma ulp_inverse:
  assumes "e \<le> 52"
  shows "(2::real) powi (e - 52) = 1 / 2 ^ nat (52 - e)"
proof -
  have "(2::real) powi (e - 52) = 2 powi (- (52 - e))" by simp
  also have "\<dots> = inverse (2 powi (52 - e))" by (rule power_int_minus)
  also from assms have "(2::real) powi (52 - e) = 2 ^ nat (52 - e)"
    by (simp add: power_int_def)
  finally show ?thesis by (simp add: inverse_eq_divide)
qed

lemma roundDouble_scaled:
  assumes "binade x 1023 \<le> 52"
  shows "roundDouble x =
     of_int (roundHalfEven (x * 2 ^ nat (52 - binade x 1023))) / 2 ^ nat (52 - binade x 1023)"
  by (simp add: roundDouble_def Let_def ulp_inverse [OF assms])

lemma roundDouble_nonneg:
  assumes "0 \<le> x"
  shows "0 \<le> roundDouble x"
proof -
  have "0 < (2::real) powi (binade x 1023 - 52)" by simp
  with assms have "of_int 0 \<le> x / 2 powi (binade x 1023 - 52)" by simp
  then have "0 \<le> roundHalfEven (x / 2 powi (binade x 1023 - 52))"
    by (rule roundHalfEven_ge)
  then show ?thesis by (simp add: roundDouble_def Let_def)
qed

lemma roundDouble_ge:
  assumes "of_int j \<le> x" "x < 2 ^ 53"
  shows "of_int j \<le> roundDouble x"
proof -
  define k where "k = nat (52 - binade x 1023)"
  have E: "binade x 1023 \<le> 52" by (rule binade_below_2_53 [OF assms(2)])
  from assms(1) have "of_int (j * 2 ^ k) \<le> x * 2 ^ k" by simp
  then have "j * 2 ^ k \<le> roundHalfEven (x * 2 ^ k)" by (rule roundHalfEven_ge)
  then have "of_int (j * 2 ^ k) \<le> (of_int (roundHalfEven (x * 2 ^ k)) :: real)"
    by (simp only: of_int_le_iff)
  then have "of_int j * 2 ^ k \<le> (of_int (roundHalfEven (x * 2 ^ k)) :: real)" by simp
  then have "of_int j \<le> of_int (roundHalfEven (x * 2 ^ k)) / (2 ^ k :: real)"
    by (simp add: pos_le_divide_eq)
  then show ?thesis
    by (simp add: roundDouble_scaled [OF E] k_def)
qed

lemma roundDouble_less:
  assumes "1 \<le> j" "j \<le> 2 ^ 53" "0 \<le> x" "x \<le> of_int j * (1 - 1 / 2 ^ 53)"
  shows "roundDouble x < of_int j"
proof -
  define E where "E = binade x 1023"
  define k where "k = nat (52 - E)"
  from assms(1) have jpos: "0 < (of_int j :: real)" by simp
  then have "of_int j * (1 - 1 / 2 ^ 53) < (of_int j :: real)" by simp
  with assms(4) have xj: "x < of_int j" by simp
  moreover from assms(2) have "(of_int j :: real) \<le> 2 ^ 53"
    by (metis of_int_le_iff of_int_numeral of_int_power)
  ultimately have "x < 2 ^ 53" by simp
  then have E: "E \<le> 52" unfolding E_def by (rule binade_below_2_53)
  have low: "- 1022 \<le> E" unfolding E_def using binade_bounds [of 1023 x] by simp
  have big: "(2::real) ^ 52 < of_int j * 2 ^ k"
  proof (cases "2 powi E \<le> x")
    case True
    with xj have "2 powi E < (of_int j :: real)" by simp
    then have "2 powi E * 2 ^ k < (of_int j :: real) * 2 ^ k" by simp
    moreover have "(2::real) powi E * 2 ^ k = 2 powi E * 2 powi (52 - E)"
      using E by (simp add: k_def power_int_def)
    moreover have "(2::real) powi E * 2 powi (52 - E) = 2 powi (E + (52 - E))"
      by (rule power_int_add [symmetric]) simp
    ultimately show ?thesis by simp
  next
    case False
    with binade_low [of x 1023] have "E = - 1022" by (simp add: E_def)
    then have "k = 1074" by (simp add: k_def)
    moreover have "(2::real) ^ 52 < 1 * 2 ^ 1074" by simp
    moreover from assms(1) have "(1::real) * 2 ^ 1074 \<le> of_int j * 2 ^ 1074"
      by (intro mult_right_mono) simp_all
    ultimately show ?thesis by simp
  qed
  have "x * 2 ^ k \<le> of_int j * (1 - 1 / 2 ^ 53) * 2 ^ k"
    using assms(4) by (intro mult_right_mono) simp_all
  also have "\<dots> = of_int j * 2 ^ k - of_int j * 2 ^ k / 2 ^ 53"
    by (simp add: algebra_simps)
  also have "\<dots> < of_int j * 2 ^ k - 1 / 2"
  proof -
    from big have "(2::real) ^ 52 / 2 ^ 53 < of_int j * 2 ^ k / 2 ^ 53"
      by (intro divide_strict_right_mono) simp_all
    then show ?thesis by simp
  qed
  finally have "x * 2 ^ k < of_int (j * 2 ^ k) - 1 / 2" by simp
  then have "roundHalfEven (x * 2 ^ k) < j * 2 ^ k" by (rule roundHalfEven_less)
  then have "(of_int (roundHalfEven (x * 2 ^ k)) :: real) < of_int (j * 2 ^ k)"
    by (simp only: of_int_less_iff)
  then have "of_int (roundHalfEven (x * 2 ^ k)) < (of_int j :: real) * 2 ^ k" by simp
  then have "of_int (roundHalfEven (x * 2 ^ k)) / 2 ^ k < (of_int j :: real)"
    by (simp add: pos_divide_less_eq)
  then show ?thesis
    using roundDouble_scaled [of x] E by (simp add: E_def k_def)
qed

lemma roundDouble_0: "roundDouble 0 = 0"
  by (simp add: roundDouble_def roundHalfEven_def)

lemma randomBody_0: "list \<noteq> [] \<Longrightarrow> randomBody 0 list = Inr (list ! 0)"
  by (simp add: randomBody_def roundDouble_0)

text \<open>
  The products the model rounds are those of the code: for the double nearest to 0.7 and
  a list of ten entries the real product lies below 7 and the rounded one is 7.
\<close>

lemma randomBody_double_0_7:
  "length list = 10 \<Longrightarrow> randomBody double_0_7 list = Inr (list ! 7)"
proof -
  assume len: "length list = 10"
  have "binade (double_0_7 * 10) 1023 = 2"
    by (rule binade_eq) (simp_all add: double_0_7_def)
  then have "roundDouble (double_0_7 * 10) = 7"
    by (simp add: roundDouble_def roundHalfEven_def double_0_7_def Let_def)
  with len show ?thesis
    by (simp add: randomBody_def)
qed

text \<open>
  A pick from a list of \<open>n\<close> entries, for a double \<open>rnd\<close> below 1 (so at most
  \<open>1 - 1 / 2 ^ 53\<close>): the index is in range, and the entry \<open>i\<close> taken has
  \<open>(1 - 1 / 2 ^ 53) * i / n \<le> rnd < (i + 1) / n\<close>.
\<close>

lemma randomBody_pick:
  assumes "0 \<le> rnd" "rnd \<le> 1 - 1 / 2 ^ 53" "list \<noteq> []" "length list \<le> 2 ^ 53"
  shows "\<exists>i<length list. randomBody rnd list = Inr (list ! i) \<and>
           (1 - 1 / 2 ^ 53) * real i / real (length list) \<le> rnd \<and>
           rnd < real (i + 1) / real (length list)"
proof -
  define n where "n = length list"
  define x where "x = rnd * real n"
  define i where "i = nat \<lfloor>roundDouble x\<rfloor>"
  from assms(3) have n: "0 < real n" and n1: "1 \<le> int n" by (simp_all add: n_def Suc_le_eq)
  from assms(4) have n53: "int n \<le> 2 ^ 53"
    by (metis n_def of_nat_le_iff of_nat_numeral of_nat_power)
  then have n53': "real n \<le> 2 ^ 53"
    by (metis of_int_le_iff of_int_numeral of_int_of_nat_eq of_int_power)
  from assms(1) n have x0: "0 \<le> x" by (simp add: x_def)
  from assms(2) n have xn: "x \<le> of_int (int n) * (1 - 1 / 2 ^ 53)"
    by (simp add: x_def mult.commute [of "real n"] mult_right_mono)
  have "of_int (int n) * (1 - 1 / 2 ^ 53) < real n" using n by simp
  with xn n53' have x53: "x < 2 ^ 53" by simp
  from roundDouble_less [OF n1 n53 x0 xn] have yn: "roundDouble x < real n" by simp
  from roundDouble_nonneg [OF x0] have fl: "0 \<le> \<lfloor>roundDouble x\<rfloor>" by simp
  then have i: "int i = \<lfloor>roundDouble x\<rfloor>" by (simp add: i_def)
  from yn have "\<lfloor>roundDouble x\<rfloor> < int n" by (simp add: floor_less_iff)
  with i have lt: "i < n" by simp
  have upper: "x < real (i + 1)"
  proof (rule ccontr)
    assume "\<not> x < real (i + 1)"
    then have "of_int (int (i + 1)) \<le> x" by simp
    from roundDouble_ge [OF this x53] have "int (i + 1) \<le> \<lfloor>roundDouble x\<rfloor>"
      by (simp add: le_floor_iff)
    with i show False by simp
  qed
  have lower: "(1 - 1 / 2 ^ 53) * real i \<le> x"
  proof (cases "i = 0")
    case True
    with x0 show ?thesis by simp
  next
    case False
    show ?thesis
    proof (rule ccontr)
      assume "\<not> (1 - 1 / 2 ^ 53) * real i \<le> x"
      then have a: "x \<le> of_int (int i) * (1 - 1 / 2 ^ 53)" by (simp add: mult.commute)
      from False have b: "1 \<le> int i" by simp
      from lt n53 have c: "int i \<le> 2 ^ 53" by simp
      from roundDouble_less [OF b c x0 a] have "\<lfloor>roundDouble x\<rfloor> < int i"
        by (simp add: floor_less_iff)
      with i show False by simp
    qed
  qed
  from lower n have "(1 - 1 / 2 ^ 53) * real i / real n \<le> rnd"
    by (simp add: x_def pos_divide_le_eq)
  moreover from upper n have "rnd < real (i + 1) / real n"
    by (simp only: x_def pos_less_divide_eq)
  moreover from lt have "randomBody rnd list = Inr (list ! i)"
    by (simp add: randomBody_def i_def x_def n_def)
  ultimately show ?thesis
    using lt unfolding n_def by blast
qed

text \<open>
  Claim C2, as stated, fails: for the French language the French list is used even when
  the MP is \<^verbatim>\<open>Mark Carney\<close>.
\<close>

theorem chooseTemplate_french_first_counterexample:
  "chooseTemplate 0 sampleTemplates markCarney Fr \<noteq> Inr (primeMinisterTemplate sampleTemplates)"
  by (simp add: chooseTemplate_def randomBody_0 sampleTemplates_def ustr_def)

text \<open>
  Claim C2, amended.  With \<open>rnd\<close> the double that \<^verbatim>\<open>Math.random()\<close> returns, from 0 to
  \<open>1 - 1 / 2 ^ 53\<close>: for French the body is taken from the French list; otherwise
  \<^verbatim>\<open>Mark Carney\<close> gets the prime-minister template; otherwise the body is taken from the
  regular list.  A pick from a non-empty list of \<open>n\<close> entries, \<open>n\<close> at most \<open>2 ^ 53\<close>,
  takes the entry whose index is the product of \<open>rnd\<close> and \<open>n\<close>, rounded to a double and then
  down to an integer; it is an entry \<open>i\<close> of the list with
  \<open>(1 - 1 / 2 ^ 53) * i / n \<le> rnd < (i + 1) / n\<close>, so up to the rounding of the product every
  entry has the same share \<open>1 / n\<close> of the random numbers.
\<close>

theorem chooseTemplate_selection:
  assumes "0 \<le> rnd" "rnd \<le> 1 - 1 / 2 ^ 53"
  shows "(lang = Fr \<and> frenchTemplates et \<noteq> [] \<and> length (frenchTemplates et) \<le> 2 ^ 53 \<longrightarrow>
            (\<exists>i<length (frenchTemplates et).
               chooseTemplate rnd et m lang = Inr (frenchTemplates et ! i) \<and>
               (1 - 1 / 2 ^ 53) * real i / real (length (frenchTemplates et)) \<le> rnd \<and>
               rnd < real (i + 1) / real (length (frenchTemplates et)))) \<and>
         (lang = En \<and> fullName m = ustr ''Mark Carney'' \<longrightarrow>
            chooseTemplate rnd et m lang = Inr (primeMinisterTemplate et)) \<and>
         (lang = En \<and> fullName m \<noteq> ustr ''Mark Carney'' \<and> regularTemplates et \<noteq> [] \<and>
          length (regularTemplates et) \<le> 2 ^ 53 \<longrightarrow>
            (\<exists>i<length (regularTemplates et).
               chooseTemplate rnd et m lang = Inr (regularTemplates et ! i) \<and>
               (1 - 1 / 2 ^ 53) * real i / real (length (regularTemplates et)) \<le> rnd \<and>
               rnd < real (i + 1) / real (length (regularTemplates et))))"
proof (intro conjI impI)
  assume a: "lang = Fr \<and> frenchTemplates et \<noteq> [] \<and> length (frenchTemplates et) \<le> 2 ^ 53"
  then have "frenchTemplates et \<noteq> []" "length (frenchTemplates et) \<le> 2 ^ 53" by simp_all
  from randomBody_pick [OF assms this] a
  show "\<exists>i<length (frenchTemplates et).
               chooseTemplate rnd et m lang = Inr (frenchTemplates et ! i) \<and>
               (1 - 1 / 2 ^ 53) * real i / real (length (frenchTemplates et)) \<le> rnd \<and>
               rnd < real (i + 1) / real (length (frenchTemplates et))"
    by (simp add: chooseTemplate_def)
next
  assume "lang = En \<and> fullName m = ustr ''Mark Carney''"
  then show "chooseTemplate rnd et m lang = Inr (primeMinisterTemplate et)"
    by (simp add: chooseTemplate_def)
next
  assume a: "lang = En \<and> fullName m \<noteq> ustr ''Mark Carney'' \<and> regularTemplates et \<noteq> [] \<and>
          length (regularTemplates et) \<le> 2 ^ 53"
  then have "regularTemplates et \<noteq> []" "length (regularTemplates et) \<le> 2 ^ 53" by simp_all
  from randomBody_pick [OF assms this] a
  show "\<exists>i<length (regularTemplates et).
               chooseTemplate rnd et m lang = Inr (regularTemplates et ! i) \<and>
               (1 - 1 / 2 ^ 53) * real i / real (length (regularTemplates et)) \<le> rnd \<and>
               rnd < real (i + 1) / real (length (regularTemplates et))"
    by (simp add: chooseTemplate_def)
qed

theorem chooseTemplate_selection_witness:
  "(0::real) \<le> 1 / 2 \<and> (1 / 2 :: real) \<le> 1 - 1 / 2 ^ 53 \<and>
   (\<exists>i<length (regularTemplates sampleTemplates).
      chooseTemplate (1 / 2) sampleTemplates janeDoe En = Inr (regularTemplates sampleTemplates ! i) \<and>
      (1 - 1 / 2 ^ 53) * real i / real (length (regularTemplates sampleTemplates)) \<le> 1 / 2 \<and>
      1 / 2 < real (i + 1) / real (length (regularTemplates sampleTemplates)))"
proof -
  have a: "(0::real) \<le> 1 / 2" and b: "(1 / 2 :: real) \<le> 1 - 1 / 2 ^ 53"
    by simp_all
  have c: "En = En \<and> fullName janeDoe \<noteq> ustr ''Mark Carney'' \<and> regularTemplates sampleTemplates \<noteq> [] \<and>
      length (regularTemplates sampleTemplates) \<le> 2 ^ 53"
    by (simp add: janeDoe_def sampleMP_def sampleTemplates_def ustr_def)
  note t = chooseTemplate_selection [OF a b, of En sampleTemplates janeDoe]
  show ?thesis
    by (intro conjI a b t [THEN conjunct2, THEN conjunct2, THEN mp, OF c])
qed

lemma setHours0_fixed: "setHours0 (\<lambda>t isUTC. off) t = ((t + off) div msPerDay) * msPerDay - off"
  by (simp add: setHours0_def)

lemma diffDays_of_fixed:
  "diffDays_of (\<lambda>t isUTC. off) now = (now + off) div msPerDay - (startDate_parsed + off) div msPerDay"
proof -
  have "((now + off) div msPerDay * msPerDay - off - ((startDate_parsed + off) div msPerDay * msPerDay - off)) div msPerDay
      = (((now + off) div msPerDay - (startDate_parsed + off) div msPerDay) * msPerDay) div msPerDay"
    by (simp add: algebra_simps)
  also have "\<dots> = (now + off) div msPerDay - (startDate_parsed + off) div msPerDay"
    by (simp add: msPerDay_def)
  finally show ?thesis
    by (simp add: diffDays_of_def setHours0_fixed)
qed

text \<open>
  In a zone with the fixed offset \<open>off\<close> the count is the local day of the clock minus a
  start day: day 20461 (8 January 2026) at or east of UTC, day 20460 (7 January) west of
  UTC.
\<close>

lemma startDate_local_day:
  "(startDate_parsed + off) div msPerDay = 20461 + off div msPerDay"
proof -
  have "msPerDay \<noteq> 0" by (simp add: msPerDay_def)
  then have "(20461 * msPerDay + off) div msPerDay = 20461 + off div msPerDay"
    by (rule div_mult_self3)
  then show ?thesis by (simp add: startDate_parsed_def)
qed

lemma diffDays_east_of_UTC:
  assumes "0 \<le> off" "off < msPerDay"
  shows "diffDays_of (\<lambda>t isUTC. off) now = (now + off) div msPerDay - 20461"
proof -
  from assms have "off div msPerDay = 0" by simp
  then show ?thesis by (simp add: diffDays_of_fixed startDate_local_day)
qed

lemma diffDays_west_of_UTC:
  assumes "- msPerDay \<le> off" "off < 0"
  shows "diffDays_of (\<lambda>t isUTC. off) now = (now + off) div msPerDay - 20460"
proof -
  from assms have "(off + msPerDay) div msPerDay = 0" by simp
  moreover have "(off + msPerDay) div msPerDay = off div msPerDay + 1"
    by (simp add: msPerDay_def)
  ultimately have "off div msPerDay = - 1" by simp
  then show ?thesis by (simp add: diffDays_of_fixed startDate_local_day)
qed

text \<open>
  Claim C8.  The count should be 0 on the start date, 8 January 2026.  The code parses
  the date as UTC midnight before it moves it to local midnight, so five hours west of
  UTC, at noon of 8 January, the count is 1.
\<close>

theorem diffDays_on_start_date_west_of_UTC:
  "diffDays_of easternStandardTime noonEST_8_January = 1"
  unfolding easternStandardTime_def diffDays_of_fixed
  by (simp add: noonEST_8_January_def startDate_parsed_def msPerDay_def)






text \<open>
  Where composition does clear the tokens: the chosen template is prose without an
  opening bracket around at most one \<^verbatim>\<open>[DAYS_COUNT]\<close>, two \<^verbatim>\<open>[MP_NAME]\<close> and one
  \<^verbatim>\<open>[CONSTITUENCY_INFO]\<close>, and the fields of the MP record hold no opening bracket and no
  dollar sign.  Each call of \<^verbatim>\<open>replace\<close> fills the first slot of its token only.
\<close>

lemma digits_range: "\<forall>c\<in>set (digits n). 48 \<le> c \<and> c \<le> 57"
proof (induction n rule: digits.induct)
  case (1 n)
  show ?case
  proof (cases "n < 10")
    case True
    then show ?thesis by (simp add: digits.simps [of n])
  next
    case False
    with 1 have "\<forall>c\<in>set (digits (n div 10)). 48 \<le> c \<and> c \<le> 57" by simp
    moreover have "n mod 10 < 10" by simp
    ultimately show ?thesis
      using False by (auto simp: digits.simps [of n])
  qed
qed

lemma toString_plain: "36 \<notin> set (toString i)" "91 \<notin> set (toString i)"
  using digits_range [of "nat (- i)"] digits_range [of "nat i"]
  by (auto simp: toString_def)

lemma constituencyNote_no_bracket:
  assumes "91 \<notin> set actual" "\<forall>pc. code = Some pc \<longrightarrow> 91 \<notin> set pc"
  shows "91 \<notin> set (constituencyNote lang actual code)"
proof (cases lang)
  case En
  with assms show ?thesis
    by (cases code) (simp_all add: constituencyNote_def ustr_def)
next
  case Fr
  with assms show ?thesis
    by (cases code) (simp_all add: constituencyNote_def ustr_def)
qed

lemma all_slots_filled:
  assumes "plainSegments segs"
      and "slotCount DAYS_COUNT segs \<le> 1" "slotCount MP_NAME segs \<le> 2"
      and "slotCount CONSTITUENCY_INFO segs \<le> 1"
      and "91 \<notin> set d" "91 \<notin> set f" "91 \<notin> set l"
  shows "91 \<notin> set (render (fill CONSTITUENCY_INFO l (fill MP_NAME f (fill MP_NAME f
           (fill DAYS_COUNT d segs)))))"
proof -
  let ?s4 = "fill CONSTITUENCY_INFO l (fill MP_NAME f (fill MP_NAME f (fill DAYS_COUNT d segs)))"
  have "plainSegments ?s4"
    using assms(1,5,6,7) by (simp add: plainSegments_fill)
  moreover have "slotCount p ?s4 = 0" for p
    using assms(2,3,4) by (cases p) (simp_all add: slotCount_fill_same slotCount_fill_other)
  ultimately show ?thesis
    by (simp add: render_no_bracket)
qed

lemma emailBody_clean_for_simple_template:
  assumes "chooseTemplate rnd et m lang = Inr (render segs)"
      and "plainSegments segs" "slotCount DAYS_COUNT segs \<le> 1" "slotCount MP_NAME segs \<le> 2"
      and "slotCount CONSTITUENCY_INFO segs \<le> 1"
      and "91 \<notin> set (fullName m)" "36 \<notin> set (fullName m)"
      and "91 \<notin> set (constituency m)" "36 \<notin> set (constituency m)"
      and "91 \<notin> set (province m)" "36 \<notin> set (province m)"
      and "\<forall>a. actualConstituency m = Some a \<longrightarrow> 91 \<notin> set a"
      and "\<forall>pc. postalCode m = Some pc \<longrightarrow> 91 \<notin> set pc"
  shows "\<exists>body. emailBody localTZA now rnd (Some et) m lang = Inr body \<and>
           (\<forall>p. \<not> includes_str body (token p))"
proof -
  define t where "t = render segs"
  note t = assms(1) [folded t_def]
  note segs = t_def assms(2-5)
  define d where "d = toString (diffDays_of localTZA now)"
  define l where "l = constituency m @ ustr '', '' @ province m"
  define s1 where "s1 = fill DAYS_COUNT d segs"
  define s2 where "s2 = fill MP_NAME (fullName m) s1"
  define s3 where "s3 = fill MP_NAME (fullName m) s2"
  define s4 where "s4 = fill CONSTITUENCY_INFO l s3"
  have d: "36 \<notin> set d" "91 \<notin> set d"
    by (simp_all add: d_def toString_plain)
  have l: "36 \<notin> set l" "91 \<notin> set l"
    using assms(8-11) by (simp_all add: l_def ustr_def)
  have p1: "plainSegments s1" unfolding s1_def by (rule plainSegments_fill [OF d(2) segs(2)])
  have p2: "plainSegments s2" unfolding s2_def by (rule plainSegments_fill [OF assms(6) p1])
  have p3: "plainSegments s3" unfolding s3_def by (rule plainSegments_fill [OF assms(6) p2])
  have r1: "replace t (ustr ''[DAYS_COUNT]'') d = render s1"
    using replace_render [OF d(1) segs(2), of DAYS_COUNT] by (simp add: s1_def segs(1))
  have r2: "replace (render s1) (ustr ''[MP_NAME]'') (fullName m) = render s2"
    using replace_render [OF assms(7) p1, of MP_NAME] by (simp add: s2_def)
  have r3: "replace (render s2) (ustr ''[MP_NAME]'') (fullName m) = render s3"
    using replace_render [OF assms(7) p2, of MP_NAME] by (simp add: s3_def)
  have r4: "replace (render s3) (ustr ''[CONSTITUENCY_INFO]'') l = render s4"
    using replace_render [OF l(1) p3, of CONSTITUENCY_INFO] by (simp add: s4_def)
  have tmpl: "getEmailTemplate localTZA now rnd (Some et) m lang = Inr (render s1)"
    by (simp add: getEmailTemplate_def t r1 [unfolded d_def])
  have clean: "91 \<notin> set (render s4)"
    unfolding s4_def s3_def s2_def s1_def
    by (rule all_slots_filled [OF segs(2-5) d(2) assms(6) l(2)])
  define body where "body =
     (case actualConstituency m of
        Some actual \<Rightarrow>
          if isDefault m = Some True \<and> actual \<noteq> []
          then render s4 @ constituencyNote lang actual (postalCode m) else render s4
      | None \<Rightarrow> render s4)"
  have eq: "emailBody localTZA now rnd (Some et) m lang = Inr body"
    by (simp add: emailBody_def tmpl r2 r3 r4 [unfolded l_def] body_def Let_def
        split: option.splits)
  have "91 \<notin> set body"
    using clean assms(12,13) constituencyNote_no_bracket [of _ "postalCode m" lang]
    by (auto simp: body_def split: option.splits)
  then have "\<forall>p. \<not> includes_str body (token p)"
    by (simp add: no_bracket_no_token)
  with eq show ?thesis by blast
qed

section \<open>Claims on the usage counter\<close>

lemma split_nonempty: "split sep s \<noteq> []"
  by (induction s) (auto split: list.splits)

lemma split_none: "sep \<notin> set s \<Longrightarrow> split sep s = [s]"
  by (induction s) auto

lemma split_append: "sep \<notin> set a \<Longrightarrow> split sep (a @ sep # b) = a # split sep b"
  by (induction a) auto

lemma cleanEventType_of_iff:
  "cleanEventType_of t = ustr ''Send email'' \<longleftrightarrow>
     t = ustr ''Send email'' \<or> t = [34] @ ustr ''Send email'' @ [34]"
proof
  assume c: "cleanEventType_of t = ustr ''Send email''"
  show "t = ustr ''Send email'' \<or> t = [34] @ ustr ''Send email'' @ [34]"
  proof (cases "2 \<le> length t \<and> hd t = 34 \<and> last t = 34 \<and>
         list_all (\<lambda>c. \<not> isLineTerminator c) (butlast (tl t))")
    case True
    with c have mid: "butlast (tl t) = ustr ''Send email''"
      by (simp add: cleanEventType_of_def)
    from True obtain u where t: "t = 34 # u" "u \<noteq> []"
      by (cases t) (auto simp: Suc_le_eq)
    with True have "last u = 34" by simp
    with t(2) have "u = butlast u @ [34]"
      using append_butlast_last_id [of u] by simp
    with mid t show ?thesis by simp
  next
    case False
    with c show ?thesis by (simp add: cleanEventType_of_def)
  qed
next
  assume "t = ustr ''Send email'' \<or> t = [34] @ ustr ''Send email'' @ [34]"
  then show "cleanEventType_of t = ustr ''Send email''"
    by (auto simp: cleanEventType_of_def ustr_def isLineTerminator_def)
qed

lemma countsAsSent_iff: "countsAsSent row \<longleftrightarrow> sendEmailRow row"
proof (cases "split 44 row" rule: remdups_adj.cases)
  case 1
  with split_nonempty show ?thesis by blast
next
  case (2 c0)
  then show ?thesis
    by (simp add: countsAsSent_def sendEmailRow_def secondColumn_def)
next
  case (3 c0 c1 rest)
  then show ?thesis
    by (simp add: countsAsSent_def sendEmailRow_def secondColumn_def isSendEmail_def
        cleanEventType_of_iff)
qed

lemma fetchEmailCount_header_only:
  "10 \<notin> set (trim csvText) \<Longrightarrow> fetchEmailCount (Inr csvText) = Some 0"
  by (simp add: fetchEmailCount_def split_none)

lemma fetchEmailCount_two_rows:
  assumes "header \<noteq> []" "\<not> isWhiteSpace (hd header)" "10 \<notin> set header"
      and "10 \<notin> set row1" "10 \<notin> set row2" "row2 \<noteq> []" "\<not> isWhiteSpace (last row2)"
      and "list_all isWhiteSpace trailing"
  shows "fetchEmailCount (Inr (header @ [10] @ row1 @ [10] @ row2 @ trailing)) =
     Some ((if sendEmailRow row1 then 1 else 0) + (if sendEmailRow row2 then 1 else 0))"
proof -
  let ?s = "header @ 10 # row1 @ 10 # row2"
  from assms(1,2,6,7) have "?s \<noteq> []" "\<not> isWhiteSpace (hd ?s)" "\<not> isWhiteSpace (last ?s)"
    by simp_all
  from trim_core [OF this assms(8)]
  have "trim (header @ [10] @ row1 @ [10] @ row2 @ trailing) = ?s"
    by simp
  moreover have "split 10 ?s = [header, row1, row2]"
    by (simp add: split_append assms(3,4,5) split_none)
  ultimately show ?thesis
    by (simp add: fetchEmailCount_def countsAsSent_iff)
qed

text \<open>
  Claim C10.  A sheet that is one line after trimming gives 0; a header and two data
  rows of which exactly one has \<^verbatim>\<open>Send email\<close> (quoted or not) as its second column give
  1; a rejected fetch gives \<^verbatim>\<open>null\<close>, the unavailable state.
\<close>

theorem fetchEmailCount_counts:
  "(10 \<notin> set (trim header) \<longrightarrow> fetchEmailCount (Inr header) = Some 0) \<and>
   (header \<noteq> [] \<and> \<not> isWhiteSpace (hd header) \<and> 10 \<notin> set header \<and>
    10 \<notin> set row1 \<and> 10 \<notin> set row2 \<and> row2 \<noteq> [] \<and> \<not> isWhiteSpace (last row2) \<and>
    list_all isWhiteSpace trailing \<and> sendEmailRow row1 \<noteq> sendEmailRow row2 \<longrightarrow>
      fetchEmailCount (Inr (header @ [10] @ row1 @ [10] @ row2 @ trailing)) = Some 1) \<and>
   fetchEmailCount (Inl err) = None"
proof (intro conjI impI)
  assume "10 \<notin> set (trim header)"
  then show "fetchEmailCount (Inr header) = Some 0"
    by (rule fetchEmailCount_header_only)
next
  assume h: "header \<noteq> [] \<and> \<not> isWhiteSpace (hd header) \<and> 10 \<notin> set header \<and>
    10 \<notin> set row1 \<and> 10 \<notin> set row2 \<and> row2 \<noteq> [] \<and> \<not> isWhiteSpace (last row2) \<and>
    list_all isWhiteSpace trailing \<and> sendEmailRow row1 \<noteq> sendEmailRow row2"
  then have "fetchEmailCount (Inr (header @ [10] @ row1 @ [10] @ row2 @ trailing)) =
     Some ((if sendEmailRow row1 then 1 else 0) + (if sendEmailRow row2 then 1 else 0))"
    by (intro fetchEmailCount_two_rows) simp_all
  with h show "fetchEmailCount (Inr (header @ [10] @ row1 @ [10] @ row2 @ trailing)) = Some 1"
    by auto
next
  show "fetchEmailCount (Inl err) = None"
    by (simp add: fetchEmailCount_def)
qed

theorem fetchEmailCount_counts_witness:
  "fetchEmailCount (Inr (sampleHeader @ [13, 10])) = Some 0 \<and>
   fetchEmailCount (Inr (sampleHeader @ [10] @ sampleSearchRow @ [10] @ sampleSendRow @ [13, 10])) = Some 1 \<and>
   fetchEmailCount (Inl NotAnError) = None"
proof -
  note t = fetchEmailCount_counts
  have a: "10 \<notin> set (trim (sampleHeader @ [13, 10]))"
    by (simp add: sampleHeader_def string_defs)
  have b: "sampleHeader \<noteq> [] \<and> \<not> isWhiteSpace (hd sampleHeader) \<and> 10 \<notin> set sampleHeader \<and>
    10 \<notin> set sampleSearchRow \<and> 10 \<notin> set sampleSendRow \<and> sampleSendRow \<noteq> [] \<and>
    \<not> isWhiteSpace (last sampleSendRow) \<and> list_all isWhiteSpace [13, 10] \<and>
    sendEmailRow sampleSearchRow \<noteq> sendEmailRow sampleSendRow"
    by (simp add: sampleHeader_def sampleSearchRow_def sampleSendRow_def string_defs
        sendEmailRow_def secondColumn_def isSendEmail_def)
  show ?thesis
    by (intro conjI t [THEN conjunct1, THEN mp, OF a]
        t [THEN conjunct2, THEN conjunct1, THEN mp, OF b] t [THEN conjunct2, THEN conjunct2])
qed

end
